theory Spec2Isabelle
  imports Main "HOL-Library.AList"
begin

section \<open>Python strings\<close>

text \<open>
  A Python \<open>str\<close> is modelled as a \<open>string\<close>, one \<open>char\<close> per code point, so the
  model covers the code points \<open>U+0000\<close> to \<open>U+00FF\<close>. On that range \<open>str.lower\<close>
  maps \<open>A\<close>..\<open>Z\<close> and the Latin-1 capitals (\<open>U+00C0\<close>..\<open>U+00DE\<close> without the
  multiplication sign \<open>U+00D7\<close>) to the letter 32 places further on and leaves every
  other character alone; \<open>str.isspace\<close> holds of the twelve characters listed in
  \<open>is_space\<close>.
\<close>

definition code :: "char \<Rightarrow> nat" where
  "code c = of_char c"

definition is_space :: "char \<Rightarrow> bool" where
  "is_space c = (code c \<in> {9, 10, 11, 12, 13, 28, 29, 30, 31, 32, 133, 160})"

definition strip :: "string \<Rightarrow> string" where
  "strip s = rev (dropWhile is_space (rev (dropWhile is_space s)))"

definition is_lower_alpha :: "char \<Rightarrow> bool" where
  "is_lower_alpha c = (97 \<le> code c \<and> code c \<le> 122)"

definition is_alpha :: "char \<Rightarrow> bool" where
  "is_alpha c = ((65 \<le> code c \<and> code c \<le> 90) \<or> is_lower_alpha c)"

definition lower_char :: "char \<Rightarrow> char" where
  "lower_char c =
     (if (65 \<le> code c \<and> code c \<le> 90) \<or> (192 \<le> code c \<and> code c \<le> 222 \<and> code c \<noteq> 215)
      then char_of (code c + 32) else c)"

definition lower :: "string \<Rightarrow> string" where
  "lower s = map lower_char s"

section \<open>Keyword extraction (\<open>problem2/load_data.py\<close>)\<close>

definition STOPWORDS :: "string list" where
  "STOPWORDS =
    [''the'', ''a'', ''an'', ''and'', ''or'', ''but'', ''in'', ''on'', ''at'', ''to'', ''for'',
     ''of'', ''with'', ''by'', ''from'', ''up'', ''about'', ''into'', ''through'', ''during'',
     ''is'', ''are'', ''was'', ''were'', ''be'', ''been'', ''being'', ''have'', ''has'', ''had'',
     ''do'', ''does'', ''did'', ''will'', ''would'', ''could'', ''should'', ''may'', ''might'',
     ''can'', ''this'', ''that'', ''these'', ''those'', ''we'', ''our'', ''use'', ''using'',
     ''based'', ''approach'', ''method'', ''paper'', ''propose'', ''proposed'', ''show'']"

text \<open>
  \<open>re.findall(r"[a-zA-Z]+", s)\<close>: the maximal runs of ASCII letters of \<open>s\<close>, left to
  right. \<open>scan_alpha cur s\<close> carries the run read so far.
\<close>

fun scan_alpha :: "string \<Rightarrow> string \<Rightarrow> string list" where
  "scan_alpha cur [] = (if cur = [] then [] else [cur])"
| "scan_alpha cur (c # cs) =
     (if is_alpha c then scan_alpha (cur @ [c]) cs
      else (if cur = [] then [] else [cur]) @ scan_alpha [] cs)"

definition findall_alpha :: "string \<Rightarrow> string list" where
  "findall_alpha s = scan_alpha [] s"

text \<open>
  \<open>Counter(tokens)\<close> counts each token; the dictionary keeps its keys in the order of
  their first insertion, so it is an association list to which a new key is appended.
\<close>

fun counter_add :: "string \<Rightarrow> (string \<times> nat) list \<Rightarrow> (string \<times> nat) list" where
  "counter_add t [] = [(t, 1)]"
| "counter_add t ((w, c) # rest) =
     (if w = t then (w, c + 1) # rest else (w, c) # counter_add t rest)"

definition Counter :: "string list \<Rightarrow> (string \<times> nat) list" where
  "Counter toks = fold counter_add toks []"

text \<open>
  \<open>counter.most_common(n)\<close> is \<open>heapq.nlargest(n, items, key=count)\<close>, which the
  library documents as \<open>sorted(items, key=count, reverse=True)[:n]\<close>: a stable sort by
  descending count (equal counts keep the dictionary's order), cut to \<open>n\<close> entries, and
  to none for \<open>n \<le> 0\<close>.
\<close>

definition most_common :: "int \<Rightarrow> (string \<times> nat) list \<Rightarrow> (string \<times> nat) list" where
  "most_common n cnt = take (nat n) (sort_key (\<lambda>(w, c). - int c) cnt)"

definition keyword_tokens :: "string \<Rightarrow> string list" where
  "keyword_tokens abstract = filter (\<lambda>t. t \<notin> set STOPWORDS) (findall_alpha (lower abstract))"

definition extract_keywords :: "string \<Rightarrow> int \<Rightarrow> string list" where
  "extract_keywords abstract max_keywords =
     (if abstract = [] then []
      else let tokens = keyword_tokens abstract
           in if tokens = [] then []
              else map fst (most_common max_keywords (Counter tokens)))"


subsection \<open>Ranking of keywords, in the words of the specification\<close>

text \<open>
  The tokens in the order of their first occurrence, the position of a token's first
  occurrence, and the order "more frequent first, on equal frequency the one that occurs
  first".
\<close>


definition first_occ :: "string list \<Rightarrow> string list" where
  "first_occ toks = rev (remdups (rev toks))"

definition first_index :: "string list \<Rightarrow> string \<Rightarrow> nat" where
  "first_index toks w = length (takeWhile (\<lambda>t. t \<noteq> w) toks)"

definition ranks_before :: "string list \<Rightarrow> string \<Rightarrow> string \<Rightarrow> bool" where
  "ranks_before toks u v =
     (count_list toks v < count_list toks u \<or>
      (count_list toks u = count_list toks v \<and> first_index toks u < first_index toks v))"


section \<open>Raw records and Python values\<close>

text \<open>
  \<open>json.load\<close> gives dictionaries, lists, strings, integers, booleans and \<open>None\<close>
  (floating-point numbers are left out of the model). A raw paper is a dictionary.
\<close>

datatype json =
    JNull
  | JBool bool
  | JNum int
  | JStr string
  | JArr "json list"
  | JObj "(string \<times> json) list"

type_synonym raw_paper = "(string \<times> json) list"

datatype exn =
    AttributeError string
  | ValueError string
  | IndexError string
  | TypeError string
  | StoreError string


fun truthy :: "json \<Rightarrow> bool" where
  "truthy JNull = False"
| "truthy (JBool b) = b"
| "truthy (JNum n) = (n \<noteq> 0)"
| "truthy (JStr s) = (s \<noteq> [])"
| "truthy (JArr xs) = (xs \<noteq> [])"
| "truthy (JObj kvs) = (kvs \<noteq> [])"

definition py_or :: "json \<Rightarrow> json \<Rightarrow> json" where
  "py_or a b = (if truthy a then a else b)"

definition dict_get :: "raw_paper \<Rightarrow> string \<Rightarrow> json" where
  "dict_get p k = (case map_of p k of None \<Rightarrow> JNull | Some v \<Rightarrow> v)"

subsection \<open>\<open>str\<close> and \<open>repr\<close>\<close>

definition digit_char :: "nat \<Rightarrow> char" where
  "digit_char d = char_of (48 + d)"

function show_nat :: "nat \<Rightarrow> string" where
  "show_nat n = (if n < 10 then [digit_char n] else show_nat (n div 10) @ [digit_char (n mod 10)])"
  by pat_completeness auto
termination
  by (relation "measure id") auto

declare show_nat.simps [simp del]

definition show_int :: "int \<Rightarrow> string" where
  "show_int i = (if i < 0 then CHR ''-'' # show_nat (nat (- i)) else show_nat (nat i))"

definition hex_char :: "nat \<Rightarrow> char" where
  "hex_char d = (if d < 10 then char_of (48 + d) else char_of (87 + d))"

definition printable :: "char \<Rightarrow> bool" where
  "printable c = (32 \<le> code c \<and> code c \<noteq> 173 \<and> (code c < 127 \<or> 160 < code c))"

definition repr_char :: "char \<Rightarrow> char \<Rightarrow> string" where
  "repr_char q c =
     (if c = q \<or> c = CHR 0x5C then [CHR 0x5C, c]
      else if code c = 9 then [CHR 0x5C, CHR ''t'']
      else if code c = 10 then [CHR 0x5C, CHR ''n'']
      else if code c = 13 then [CHR 0x5C, CHR ''r'']
      else if printable c then [c]
      else [CHR 0x5C, CHR ''x'', hex_char (code c div 16), hex_char (code c mod 16)])"

definition repr_str :: "string \<Rightarrow> string" where
  "repr_str s =
     (let q = (if CHR 0x27 \<in> set s \<and> CHR 0x22 \<notin> set s then CHR 0x22 else CHR 0x27)
      in q # concat (map (repr_char q) s) @ [q])"

fun join :: "string \<Rightarrow> string list \<Rightarrow> string" where
  "join sep [] = []"
| "join sep [x] = x"
| "join sep (x # y # ys) = x @ sep @ join sep (y # ys)"

fun py_repr :: "json \<Rightarrow> string" where
  "py_repr JNull = ''None''"
| "py_repr (JBool b) = (if b then ''True'' else ''False'')"
| "py_repr (JNum n) = show_int n"
| "py_repr (JStr s) = repr_str s"
| "py_repr (JArr xs) = ''['' @ join '', '' (map py_repr xs) @ '']''"
| "py_repr (JObj kvs) =
     ''{'' @ join '', '' (map (\<lambda>kv. repr_str (fst kv) @ '': '' @ py_repr (snd kv)) kvs) @ ''}''"

definition py_str :: "json \<Rightarrow> string" where
  "py_str v = (case v of JStr s \<Rightarrow> s | _ \<Rightarrow> py_repr v)"

definition type_name :: "json \<Rightarrow> string" where
  "type_name v =
     (case v of JNull \<Rightarrow> ''NoneType'' | JBool _ \<Rightarrow> ''bool'' | JNum _ \<Rightarrow> ''int''
      | JStr _ \<Rightarrow> ''str'' | JArr _ \<Rightarrow> ''list'' | JObj _ \<Rightarrow> ''dict'')"

text \<open>
  \<open>s.replace(old, new)\<close> for a non-empty \<open>old\<close>: the occurrences are found left to
  right and do not overlap. The counter is the number of characters of a matched
  occurrence that are still to be skipped.
\<close>

fun replace_from :: "string \<Rightarrow> string \<Rightarrow> nat \<Rightarrow> string \<Rightarrow> string" where
  "replace_from old new k [] = []"
| "replace_from old new (Suc k) (c # cs) = replace_from old new k cs"
| "replace_from old new 0 (c # cs) =
     (if take (length old) (c # cs) = old
      then new @ replace_from old new (length old - 1) cs
      else c # replace_from old new 0 cs)"

definition replace :: "string \<Rightarrow> string \<Rightarrow> string \<Rightarrow> string" where
  "replace old new s = replace_from old new 0 s"


section \<open>Dates (\<open>normalize_published\<close>)\<close>

text \<open>
  A \<open>datetime\<close> value; \<open>utcoffset\<close> is \<open>None\<close> for a naive value and the offset in
  seconds for an aware one (offsets with a fraction of a second are left out).
\<close>

record datetime =
  year :: nat
  month :: nat
  day :: nat
  hour :: nat
  minute :: nat
  second :: nat
  microsecond :: nat
  utcoffset :: "int option"

definition zpad :: "nat \<Rightarrow> nat \<Rightarrow> string" where
  "zpad k n = replicate (k - length (show_nat n)) (CHR ''0'') @ show_nat n"

definition date_isoformat :: "datetime \<Rightarrow> string" where
  "date_isoformat dt = zpad 4 (year dt) @ ''-'' @ zpad 2 (month dt) @ ''-'' @ zpad 2 (day dt)"

definition offset_isoformat :: "int \<Rightarrow> string" where
  "offset_isoformat off =
     (let a = \<bar>off\<bar>
      in (if off < 0 then ''-'' else ''+'') @ zpad 2 (nat (a div 3600)) @ '':''
         @ zpad 2 (nat (a mod 3600 div 60))
         @ (if a mod 60 \<noteq> 0 then '':'' @ zpad 2 (nat (a mod 60)) else []))"

definition time_isoformat :: "datetime \<Rightarrow> string" where
  "time_isoformat dt =
     zpad 2 (hour dt) @ '':'' @ zpad 2 (minute dt) @ '':'' @ zpad 2 (second dt)
     @ (if microsecond dt \<noteq> 0 then ''.'' @ zpad 6 (microsecond dt) else [])"

definition isoformat :: "datetime \<Rightarrow> string" where
  "isoformat dt =
     date_isoformat dt @ ''T'' @ time_isoformat dt
     @ (case utcoffset dt of None \<Rightarrow> [] | Some off \<Rightarrow> offset_isoformat off)"

text \<open>
  \<open>normalize_published\<close>. The parser \<open>datetime.fromisoformat\<close> is a parameter
  \<open>fromiso\<close> that returns \<open>None\<close> where the library raises: which strings it accepts
  beyond the canonical ones depends on the Python version. \<open>parse_published\<close> is the
  value of \<open>dt\<close> in the \<open>try\<close> block, \<open>None\<close> where the block raises.
\<close>

definition parse_published :: "(string \<Rightarrow> datetime option) \<Rightarrow> string \<Rightarrow> datetime option" where
  "parse_published fromiso s =
     (if CHR ''T'' \<in> set s then fromiso (replace ''Z'' ''+00:00'' s)
      else fromiso (strip s @ ''T00:00:00''))"

definition normalize_published :: "(string \<Rightarrow> datetime option) \<Rightarrow> json \<Rightarrow> string \<times> string" where
  "normalize_published fromiso published_raw =
     (if \<not> truthy published_raw then (''1970-01-01'', ''1970-01-01T00:00:00Z'')
      else let s = py_str published_raw
           in case parse_published fromiso s of
                None \<Rightarrow> (take 10 s, s)
              | Some dt \<Rightarrow> (date_isoformat dt, replace ''+00:00'' ''Z'' (isoformat dt)))"

subsection \<open>The canonical fragment of \<open>datetime.fromisoformat\<close>\<close>

text \<open>
  Every Python version from 3.7 on reads \<open>YYYY-MM-DD\<close>, \<open>YYYY-MM-DDTHH:MM:SS\<close> and
  \<open>YYYY-MM-DDTHH:MM:SS\<close> followed by an offset \<open>+HH:MM\<close>, \<open>-HH:MM\<close>, \<open>+HH:MM:SS\<close> or
  \<open>-HH:MM:SS\<close>, with fields in range, in the same way; \<open>fromisoformat_canonical\<close> reads
  exactly these and is used where a concrete parser is needed.
\<close>

definition is_digit :: "char \<Rightarrow> bool" where
  "is_digit c = (48 \<le> code c \<and> code c \<le> 57)"

definition parse_nat :: "string \<Rightarrow> nat option" where
  "parse_nat s =
     (if s \<noteq> [] \<and> list_all is_digit s then Some (foldl (\<lambda>a c. 10 * a + (code c - 48)) 0 s)
      else None)"

definition leap_year :: "nat \<Rightarrow> bool" where
  "leap_year y = (y mod 4 = 0 \<and> (y mod 100 \<noteq> 0 \<or> y mod 400 = 0))"

definition days_in_month :: "nat \<Rightarrow> nat \<Rightarrow> nat" where
  "days_in_month y m =
     (if m = 2 then (if leap_year y then 29 else 28)
      else if m \<in> {4, 6, 9, 11} then 30 else 31)"

definition parse_date :: "string \<Rightarrow> (nat \<times> nat \<times> nat) option" where
  "parse_date s =
     (if length s = 10 \<and> s ! 4 = CHR ''-'' \<and> s ! 7 = CHR ''-'' then
        (case (parse_nat (take 4 s), parse_nat (take 2 (drop 5 s)), parse_nat (drop 8 s)) of
           (Some y, Some m, Some d) \<Rightarrow>
             if 1 \<le> y \<and> 1 \<le> m \<and> m \<le> 12 \<and> 1 \<le> d \<and> d \<le> days_in_month y m
             then Some (y, m, d) else None
         | _ \<Rightarrow> None)
      else None)"

definition parse_hms :: "string \<Rightarrow> (nat \<times> nat \<times> nat) option" where
  "parse_hms s =
     (if length s = 8 \<and> s ! 2 = CHR '':'' \<and> s ! 5 = CHR '':'' then
        (case (parse_nat (take 2 s), parse_nat (take 2 (drop 3 s)), parse_nat (drop 6 s)) of
           (Some h, Some m, Some sec) \<Rightarrow>
             if h < 24 \<and> m < 60 \<and> sec < 60 then Some (h, m, sec) else None
         | _ \<Rightarrow> None)
      else None)"

definition parse_offset :: "string \<Rightarrow> int option option" where
  "parse_offset s =
     (if s = [] then Some None
      else if length s = 6 \<and> (s ! 0 = CHR ''+'' \<or> s ! 0 = CHR ''-'') \<and> s ! 3 = CHR '':'' then
        (case (parse_nat (take 2 (drop 1 s)), parse_nat (drop 4 s)) of
           (Some h, Some m) \<Rightarrow>
             if h < 24 \<and> m < 60
             then Some (Some ((if s ! 0 = CHR ''-'' then - 1 else 1) * (int h * 3600 + int m * 60)))
             else None
         | _ \<Rightarrow> None)
      else if length s = 9 \<and> (s ! 0 = CHR ''+'' \<or> s ! 0 = CHR ''-'') \<and> s ! 3 = CHR '':''
              \<and> s ! 6 = CHR '':'' then
        (case (parse_nat (take 2 (drop 1 s)), parse_nat (take 2 (drop 4 s)), parse_nat (drop 7 s)) of
           (Some h, Some m, Some sec) \<Rightarrow>
             if h < 24 \<and> m < 60 \<and> sec < 60
             then Some (Some ((if s ! 0 = CHR ''-'' then - 1 else 1)
                              * (int h * 3600 + int m * 60 + int sec)))
             else None
         | _ \<Rightarrow> None)
      else None)"

definition fromisoformat_canonical :: "string \<Rightarrow> datetime option" where
  "fromisoformat_canonical s =
     (case parse_date (take 10 s) of
        None \<Rightarrow> None
      | Some (y, m, d) \<Rightarrow>
          if length s = 10 then
            Some \<lparr>year = y, month = m, day = d, hour = 0, minute = 0, second = 0,
                  microsecond = 0, utcoffset = None\<rparr>
          else
            (case (parse_hms (take 8 (drop 11 s)), parse_offset (drop 19 s)) of
               (Some (h, mi, sec), Some off) \<Rightarrow>
                 Some \<lparr>year = y, month = m, day = d, hour = h, minute = mi, second = sec,
                       microsecond = 0, utcoffset = off\<rparr>
             | _ \<Rightarrow> None))"

section \<open>The loader (\<open>problem2/load_data.py\<close>, \<open>main\<close>)\<close>

text \<open>
  The canonical Paper: the seven entries of \<open>base_attrs\<close> and the local \<open>date_str\<close>.
\<close>

record paper =
  p_arxiv_id :: string
  p_title :: string
  p_authors :: "json list"
  p_abstract :: string
  p_categories :: "json list"
  p_keywords :: "string list"
  p_published :: string
  p_date_str :: string

text \<open>
  A stored item: the primary key, the key pairs of the three secondary indexes where
  the item has them, the item type and the copy of \<open>base_attrs\<close> (the attribute
  \<open>keywords\<close> is the field \<open>keywords'\<close>).
\<close>

record item =
  PK :: string
  SK :: string
  GSI1PK :: "string option"
  GSI1SK :: "string option"
  GSI2PK :: "string option"
  GSI2SK :: "string option"
  GSI3PK :: "string option"
  GSI3SK :: "string option"
  item_type :: string
  arxiv_id :: string
  title :: string
  authors :: "json list"
  abstract :: string
  categories :: "json list"
  keywords' :: "string list"
  published :: string

text \<open>
  \<open>str(paper.get("arxiv_id") or paper.get("id") or "").strip()\<close>
\<close>

definition resolve_id :: "raw_paper \<Rightarrow> string" where
  "resolve_id p =
     strip (py_str (py_or (py_or (dict_get p ''arxiv_id'') (dict_get p ''id'')) (JStr [])))"

text \<open>
  \<open>paper.get(k, "").strip()\<close>: the default applies to an absent key only, and
  \<open>strip\<close> exists on strings only.
\<close>

definition get_stripped :: "raw_paper \<Rightarrow> string \<Rightarrow> exn + string" where
  "get_stripped p k =
     (case map_of p k of
        None \<Rightarrow> Inr (strip [])
      | Some (JStr s) \<Rightarrow> Inr (strip s)
      | Some v \<Rightarrow> Inl (AttributeError
                       ([CHR 0x27] @ type_name v @ [CHR 0x27] @ '' object has no attribute ''
                        @ [CHR 0x27] @ ''strip'' @ [CHR 0x27])))"

text \<open>
  \<open>v = paper.get(k) or []\<close>, then \<open>[str(v)]\<close> unless \<open>v\<close> is a list.
\<close>

definition get_list :: "raw_paper \<Rightarrow> string \<Rightarrow> json list" where
  "get_list p k =
     (case py_or (dict_get p k) (JArr []) of JArr xs \<Rightarrow> xs | v \<Rightarrow> [JStr (py_str v)])"

text \<open>
  The first half of the loop body: \<open>Inr None\<close> is the \<open>continue\<close> of a record
  without identifier, \<open>Inl\<close> an exception, which leaves the loop.
\<close>

definition normalize :: "(string \<Rightarrow> datetime option) \<Rightarrow> raw_paper \<Rightarrow> exn + paper option" where
  "normalize fromiso p =
     (let aid = resolve_id p in
      if aid = [] then Inr None
      else case get_stripped p ''title'' of
             Inl e \<Rightarrow> Inl e
           | Inr ti \<Rightarrow>
              (case get_stripped p ''abstract'' of
                 Inl e \<Rightarrow> Inl e
               | Inr ab \<Rightarrow>
                   let au = get_list p ''authors'';
                       ca = get_list p ''categories'';
                       dp = normalize_published fromiso (dict_get p ''published'');
                       kw = extract_keywords ab 10
                   in Inr (Some \<lparr>p_arxiv_id = aid, p_title = ti, p_authors = au,
                                  p_abstract = ab, p_categories = ca, p_keywords = kw,
                                  p_published = snd dp, p_date_str = fst dp\<rparr>)))"

definition sort_key_of :: "paper \<Rightarrow> string" where
  "sort_key_of pa = p_date_str pa @ ''#'' @ p_arxiv_id pa"

definition category_item :: "paper \<Rightarrow> json \<Rightarrow> item" where
  "category_item pa cat =
     \<lparr>PK = ''CATEGORY#'' @ py_str cat, SK = sort_key_of pa,
      GSI1PK = None, GSI1SK = None, GSI2PK = None, GSI2SK = None, GSI3PK = None, GSI3SK = None,
      item_type = ''CATEGORY'',
      arxiv_id = p_arxiv_id pa, title = p_title pa, authors = p_authors pa,
      abstract = p_abstract pa, categories = p_categories pa, keywords' = p_keywords pa,
      published = p_published pa\<rparr>"

definition author_item :: "paper \<Rightarrow> string \<Rightarrow> item" where
  "author_item pa author_str =
     \<lparr>PK = ''AUTHOR#'' @ author_str, SK = sort_key_of pa,
      GSI1PK = Some (''AUTHOR#'' @ author_str), GSI1SK = Some (sort_key_of pa),
      GSI2PK = None, GSI2SK = None, GSI3PK = None, GSI3SK = None,
      item_type = ''AUTHOR'',
      arxiv_id = p_arxiv_id pa, title = p_title pa, authors = p_authors pa,
      abstract = p_abstract pa, categories = p_categories pa, keywords' = p_keywords pa,
      published = p_published pa\<rparr>"

definition keyword_item :: "paper \<Rightarrow> string \<Rightarrow> item" where
  "keyword_item pa kw_str =
     \<lparr>PK = ''KEYWORD#'' @ kw_str, SK = sort_key_of pa,
      GSI1PK = None, GSI1SK = None, GSI2PK = None, GSI2SK = None,
      GSI3PK = Some (''KEYWORD#'' @ kw_str), GSI3SK = Some (sort_key_of pa),
      item_type = ''KEYWORD'',
      arxiv_id = p_arxiv_id pa, title = p_title pa, authors = p_authors pa,
      abstract = p_abstract pa, categories = p_categories pa, keywords' = p_keywords pa,
      published = p_published pa\<rparr>"

definition id_item :: "paper \<Rightarrow> item" where
  "id_item pa =
     \<lparr>PK = ''PAPER#'' @ p_arxiv_id pa, SK = ''PAPER'',
      GSI1PK = None, GSI1SK = None,
      GSI2PK = Some (''PAPER#'' @ p_arxiv_id pa), GSI2SK = Some ''PAPER'',
      GSI3PK = None, GSI3SK = None,
      item_type = ''PAPER'',
      arxiv_id = p_arxiv_id pa, title = p_title pa, authors = p_authors pa,
      abstract = p_abstract pa, categories = p_categories pa, keywords' = p_keywords pa,
      published = p_published pa\<rparr>"

text \<open>The three loops; a blank author or keyword is passed over.\<close>

fun category_loop :: "paper \<Rightarrow> json list \<Rightarrow> item list" where
  "category_loop pa [] = []"
| "category_loop pa (cat # cats) = category_item pa cat # category_loop pa cats"

fun author_loop :: "paper \<Rightarrow> json list \<Rightarrow> item list" where
  "author_loop pa [] = []"
| "author_loop pa (author # rest) =
     (let author_str = strip (py_str author)
      in if author_str = [] then author_loop pa rest
         else author_item pa author_str # author_loop pa rest)"

fun keyword_loop :: "paper \<Rightarrow> string list \<Rightarrow> item list" where
  "keyword_loop pa [] = []"
| "keyword_loop pa (kw # rest) =
     (let kw_str = strip (lower kw)
      in if kw_str = [] then keyword_loop pa rest
         else keyword_item pa kw_str # keyword_loop pa rest)"

text \<open>The items of one paper, in the order of the calls of \<open>batch.put_item\<close>.\<close>

definition denormalize :: "paper \<Rightarrow> item list" where
  "denormalize pa =
     category_loop pa (p_categories pa) @ author_loop pa (p_authors pa)
     @ keyword_loop pa (p_keywords pa) @ [id_item pa]"

text \<open>
  The table: at most one item for each pair \<open>(PK, SK)\<close>. The batch writer is opened
  with \<open>overwrite_by_pkeys=("PK", "SK")\<close> and flushes what is left when the \<open>with\<close>
  block is left, so every \<open>put_item\<close> takes effect in the order of the calls and a later
  item replaces an earlier one with the same key. The store is taken to accept every
  write.
\<close>

type_synonym table = "((string \<times> string) \<times> item) list"

definition put_item :: "item \<Rightarrow> table \<Rightarrow> table" where
  "put_item it tbl = AList.update (PK it, SK it) it tbl"

record load_state =
  tbl :: table
  num_papers :: nat
  total_items :: nat
  category_items :: nat
  author_items :: nat
  keyword_items :: nat
  id_items :: nat

definition write_paper :: "paper \<Rightarrow> load_state \<Rightarrow> load_state" where
  "write_paper pa st =
     st\<lparr>tbl := fold put_item (denormalize pa) (tbl st),
        num_papers := num_papers st + 1,
        total_items := total_items st + length (denormalize pa),
        category_items := category_items st + length (category_loop pa (p_categories pa)),
        author_items := author_items st + length (author_loop pa (p_authors pa)),
        keyword_items := keyword_items st + length (keyword_loop pa (p_keywords pa)),
        id_items := id_items st + 1\<rparr>"

text \<open>
  The loop over the papers. The result is the state when the loop is left and the
  exception that left it, if any.
\<close>

fun main_loop ::
  "(string \<Rightarrow> datetime option) \<Rightarrow> raw_paper list \<Rightarrow> load_state \<Rightarrow> load_state \<times> exn option" where
  "main_loop fromiso [] st = (st, None)"
| "main_loop fromiso (p # ps) st =
     (case normalize fromiso p of
        Inl e \<Rightarrow> (st, Some e)
      | Inr None \<Rightarrow> main_loop fromiso ps st
      | Inr (Some pa) \<Rightarrow> main_loop fromiso ps (write_paper pa st))"

definition initial_state :: "table \<Rightarrow> load_state" where
  "initial_state t =
     \<lparr>tbl = t, num_papers = 0, total_items = 0, category_items = 0, author_items = 0,
      keyword_items = 0, id_items = 0\<rparr>"

subsection \<open>Notions used in the statements about the loader\<close>

text \<open>
  The items that the loop writes for a list of raw papers, in order, up to the first
  exception.
\<close>


fun emitted :: "(string \<Rightarrow> datetime option) \<Rightarrow> raw_paper list \<Rightarrow> item list" where
  "emitted fromiso [] = []"
| "emitted fromiso (p # ps) =
     (case normalize fromiso p of
        Inl e \<Rightarrow> []
      | Inr None \<Rightarrow> emitted fromiso ps
      | Inr (Some pa) \<Rightarrow> denormalize pa @ emitted fromiso ps)"

text \<open>An author entry that is not blank after trimming.\<close>

definition nonblank_author :: "json \<Rightarrow> bool" where
  "nonblank_author a = (strip (py_str a) \<noteq> [])"

text \<open>The attributes that every item copies from its Paper.\<close>

definition shared_attrs :: "item \<Rightarrow> string \<times> string \<times> json list \<times> json list \<times> string list \<times> string" where
  "shared_attrs it = (title it, abstract it, authors it, categories it, keywords' it, published it)"

definition paper_attrs :: "paper \<Rightarrow> string \<times> string \<times> json list \<times> json list \<times> string list \<times> string" where
  "paper_attrs pa = (p_title pa, p_abstract pa, p_authors pa, p_categories pa, p_keywords pa, p_published pa)"


definition item_key :: "item \<Rightarrow> string \<times> string" where
  "item_key it = (PK it, SK it)"


text \<open>A raw record and the Paper it is normalised to.\<close>

definition example_raw :: raw_paper where
  "example_raw =
     [(''id'', JStr ''A1''), (''title'', JStr '' Deep nets ''),
      (''categories'', JArr [JStr ''cs.AI'', JStr ''cs.LG'']),
      (''authors'', JArr [JStr ''X Y'', JStr ''  '']),
      (''abstract'', JStr ''deep learning deep learning networks''),
      (''published'', JStr ''2024-01-15T10:30:00Z'')]"

definition example_paper :: paper where
  "example_paper =
     \<lparr>p_arxiv_id = ''A1'', p_title = ''Deep nets'', p_authors = [JStr ''X Y'', JStr ''  ''],
      p_abstract = ''deep learning deep learning networks'',
      p_categories = [JStr ''cs.AI'', JStr ''cs.LG''],
      p_keywords = [''deep'', ''learning'', ''networks''],
      p_published = ''2024-01-15T10:30:00Z'', p_date_str = ''2024-01-15''\<rparr>"

text \<open>
  Two raw records: one whose \<open>arxiv_id\<close> consists of blanks, one whose \<open>arxiv_id\<close> is
  the empty string; both have an \<open>id\<close>.
\<close>


definition blank_arxiv_id_raw :: raw_paper where
  "blank_arxiv_id_raw = [(''arxiv_id'', JStr ''  ''), (''id'', JStr ''2301.00001'')]"

definition empty_arxiv_id_raw :: raw_paper where
  "empty_arxiv_id_raw = [(''arxiv_id'', JStr []), (''id'', JStr '' 2301.00001 '')]"

section \<open>The store as the queries see it\<close>











section \<open>The five queries (\<open>problem2/query_papers.py\<close>, \<open>problem2/api_server.py\<close>)\<close>











section \<open>The request handler (\<open>problem2/api_server.py\<close>, \<open>do_GET\<close>)\<close>



















text \<open>
  The Paper that the first half of the loop body builds from a raw record whose title
  and abstract have been read as \<open>ti\<close> and \<open>ab\<close>.
\<close>

definition mk_paper ::
  "(string \<Rightarrow> datetime option) \<Rightarrow> raw_paper \<Rightarrow> string \<Rightarrow> string \<Rightarrow> paper" where
  "mk_paper fromiso p ti ab =
     \<lparr>p_arxiv_id = resolve_id p, p_title = ti, p_authors = get_list p ''authors'',
      p_abstract = ab, p_categories = get_list p ''categories'',
      p_keywords = extract_keywords ab 10,
      p_published = snd (normalize_published fromiso (dict_get p ''published'')),
      p_date_str = fst (normalize_published fromiso (dict_get p ''published''))\<rparr>"

text \<open>A raw record with an identifier whose title is \<open>null\<close>.\<close>

definition null_title_raw :: raw_paper where
  "null_title_raw = [(''id'', JStr ''X1''), (''title'', JNull)]"





section \<open>Properties of keyword extraction\<close>

lemma scan_alpha_tokens:
  "t \<in> set (scan_alpha cur s) \<Longrightarrow> \<forall>c\<in>set cur. is_alpha c \<Longrightarrow>
   t \<noteq> [] \<and> (\<forall>c\<in>set t. is_alpha c \<and> c \<in> set cur \<union> set s)"
proof (induction cur s rule: scan_alpha.induct)
  case (1 cur)
  then show ?case by (auto split: if_splits)
next
  case (2 cur c cs)
  show ?case
  proof (cases "is_alpha c")
    case True
    with 2 show ?thesis by auto
  next
    case False
    with 2 show ?thesis by (auto split: if_splits)
  qed
qed

lemma findall_alpha_tokens:
  "t \<in> set (findall_alpha s) \<Longrightarrow> t \<noteq> [] \<and> (\<forall>c\<in>set t. is_alpha c \<and> c \<in> set s)"
  using scan_alpha_tokens [of t "[]" s] by (simp add: findall_alpha_def)

lemma code_char_of: "n < 256 \<Longrightarrow> code (char_of n) = n"
  by (simp add: code_def)

lemma lower_char_alpha: "is_alpha (lower_char c) \<Longrightarrow> is_lower_alpha (lower_char c)"
  by (auto simp: is_alpha_def is_lower_alpha_def lower_char_def code_char_of split: if_splits)

lemma first_occ_snoc:
  "first_occ (toks @ [t]) = (if t \<in> set toks then first_occ toks else first_occ toks @ [t])"
  by (simp add: first_occ_def)

lemma set_first_occ: "set (first_occ toks) = set toks"
  by (simp add: first_occ_def)

lemma distinct_first_occ: "distinct (first_occ toks)"
  by (simp add: first_occ_def)

lemma counter_add_map:
  "distinct ws \<Longrightarrow>
   counter_add t (map (\<lambda>w. (w, g w)) ws) =
     (if t \<in> set ws then map (\<lambda>w. (w, if w = t then g w + 1 else g w)) ws
      else map (\<lambda>w. (w, g w)) ws @ [(t, 1)])"
  by (induction ws) auto

lemma Counter_snoc: "Counter (toks @ [t]) = counter_add t (Counter toks)"
  by (simp add: Counter_def)

lemma Counter_eq:
  "Counter toks = map (\<lambda>w. (w, count_list toks w)) (first_occ toks)"
proof (induction toks rule: rev_induct)
  case Nil
  show ?case by (simp add: Counter_def first_occ_def)
next
  case (snoc t toks)
  have "Counter (toks @ [t]) = counter_add t (map (\<lambda>w. (w, count_list toks w)) (first_occ toks))"
    by (simp add: Counter_snoc snoc.IH)
  also have "\<dots> = map (\<lambda>w. (w, count_list (toks @ [t]) w)) (first_occ (toks @ [t]))"
    by (auto simp: counter_add_map distinct_first_occ set_first_occ first_occ_snoc)
  finally show ?case .
qed

lemma sort_key_map_fst_aux:
  "sort_key (\<lambda>(w, c). k c) (map (\<lambda>w. (w, g w)) ws) =
   map (\<lambda>w. (w, g w)) (sort_key (\<lambda>w. k (g w)) ws)"
proof (induction ws)
  case Nil show ?case by simp
next
  case (Cons x ws)
  have "insort_key (\<lambda>(w, c). k c) (x, g x) (map (\<lambda>w. (w, g w)) ys)
        = map (\<lambda>w. (w, g w)) (insort_key (\<lambda>w. k (g w)) x ys)" for ys
    by (induction ys) auto
  with Cons show ?case by simp
qed

lemma sort_key_map_fst:
  "map fst (sort_key (\<lambda>(w, c). k c) (map (\<lambda>w. (w, g w)) ws)) = sort_key (\<lambda>w. k (g w)) ws"
  by (simp add: sort_key_map_fst_aux comp_def)

lemma insort_key_ranked:
  fixes f :: "'a \<Rightarrow> int" and pos :: "'a \<Rightarrow> nat"
  assumes "sorted_wrt (\<lambda>u v. f u < f v \<or> (f u = f v \<and> pos u < pos v)) ys"
    and "\<forall>y\<in>set ys. pos x < pos y"
  shows "sorted_wrt (\<lambda>u v. f u < f v \<or> (f u = f v \<and> pos u < pos v)) (insort_key f x ys)"
  using assms
proof (induction ys)
  case Nil
  show ?case by simp
next
  case (Cons y ys)
  show ?case
  proof (cases "f x \<le> f y")
    case True
    have "\<forall>z\<in>set ys. f y \<le> f z" using Cons.prems(1) by auto
    with True Cons.prems show ?thesis by (auto simp: set_insort_key)
  next
    case False
    with Cons show ?thesis by (auto simp: set_insort_key)
  qed
qed

lemma sort_key_ranked:
  fixes f :: "'a \<Rightarrow> int" and pos :: "'a \<Rightarrow> nat"
  assumes "sorted_wrt (\<lambda>u v. pos u < pos v) xs"
  shows "sorted_wrt (\<lambda>u v. f u < f v \<or> (f u = f v \<and> pos u < pos v)) (sort_key f xs)"
  using assms
proof (induction xs)
  case Nil
  show ?case by simp
next
  case (Cons x xs)
  then show ?case by (auto intro!: insort_key_ranked)
qed

lemma first_index_snoc:
  "w \<in> set toks \<Longrightarrow> first_index (toks @ [t]) w = first_index toks w"
  by (auto simp: first_index_def takeWhile_append1 dest!: split_list_first)

lemma first_index_less: "w \<in> set toks \<Longrightarrow> first_index toks w < length toks"
  unfolding first_index_def by (induction toks) auto

lemma first_index_new: "t \<notin> set toks \<Longrightarrow> first_index (toks @ [t]) t = length toks"
  unfolding first_index_def by (induction toks) auto

lemma first_occ_positions:
  "sorted_wrt (\<lambda>u v. first_index toks u < first_index toks v) (first_occ toks)"
proof (induction toks rule: rev_induct)
  case Nil
  show ?case by (simp add: first_occ_def)
next
  case (snoc t toks)
  have old: "sorted_wrt (\<lambda>u v. first_index (toks @ [t]) u < first_index (toks @ [t]) v) (first_occ toks)"
    using snoc.IH
    by (rule sorted_wrt_mono_rel [rotated]) (simp add: first_index_snoc set_first_occ)
  show ?case
  proof (cases "t \<in> set toks")
    case True
    with old show ?thesis by (simp add: first_occ_snoc)
  next
    case False
    with old show ?thesis
      by (auto simp: first_occ_snoc sorted_wrt_append set_first_occ first_index_snoc
          first_index_new first_index_less)
  qed
qed

lemma keywords_ranked:
  "toks \<noteq> [] \<Longrightarrow> map fst (most_common n (Counter toks)) =
     take (nat n) (sort_key (\<lambda>w. - int (count_list toks w)) (first_occ toks))"
  by (simp add: most_common_def Counter_eq take_map [symmetric] sort_key_map_fst)

lemma ranking_sorted:
  "sorted_wrt (ranks_before toks) (sort_key (\<lambda>w. - int (count_list toks w)) (first_occ toks))"
proof -
  have "sorted_wrt (\<lambda>u v. - int (count_list toks u) < - int (count_list toks v) \<or>
          (- int (count_list toks u) = - int (count_list toks v) \<and>
           first_index toks u < first_index toks v))
        (sort_key (\<lambda>w. - int (count_list toks w)) (first_occ toks))"
    by (rule sort_key_ranked) (rule first_occ_positions)
  then show ?thesis
    by (rule sorted_wrt_mono_rel [rotated]) (auto simp: ranks_before_def)
qed


lemma scan_alpha_separator:
  "\<not> is_alpha c \<Longrightarrow> scan_alpha cur (u @ c # v) = scan_alpha cur u @ scan_alpha [] v"
  by (induction u arbitrary: cur) auto

lemma scan_alpha_run:
  "\<forall>c\<in>set t. is_alpha c \<Longrightarrow> scan_alpha cur t = (if cur @ t = [] then [] else [cur @ t])"
  by (induction t arbitrary: cur) auto

lemma findall_alpha_separator:
  "\<not> is_alpha c \<Longrightarrow> findall_alpha (u @ c # v) = findall_alpha u @ findall_alpha v"
  by (simp add: findall_alpha_def scan_alpha_separator)

lemma findall_alpha_run:
  "t \<noteq> [] \<Longrightarrow> \<forall>c\<in>set t. is_alpha c \<Longrightarrow> findall_alpha t = [t]"
  by (simp add: findall_alpha_def scan_alpha_run)

lemma keyword_tokens_lower:
  assumes "t \<in> set (keyword_tokens a)"
  shows "t \<noteq> [] \<and> (\<forall>c\<in>set t. is_lower_alpha c) \<and> t \<notin> set STOPWORDS"
proof -
  from assms have t: "t \<in> set (findall_alpha (lower a))" and ns: "t \<notin> set STOPWORDS"
    by (auto simp: keyword_tokens_def)
  from findall_alpha_tokens [OF t]
  have ne: "t \<noteq> []" and al: "\<forall>c\<in>set t. is_alpha c \<and> c \<in> set (lower a)" by auto
  have "is_lower_alpha c" if "c \<in> set t" for c
  proof -
    from al that obtain d where "c = lower_char d" and "is_alpha c"
      by (auto simp: lower_def)
    then show ?thesis using lower_char_alpha by blast
  qed
  with ne ns show ?thesis by blast
qed

lemma extract_keywords_eq:
  "extract_keywords a n =
     take (nat n) (sort_key (\<lambda>w. - int (count_list (keyword_tokens a) w))
                            (first_occ (keyword_tokens a)))"
proof (cases "a = [] \<or> keyword_tokens a = []")
  case True
  have "keyword_tokens [] = []"
    by (simp add: keyword_tokens_def lower_def findall_alpha_def)
  with True show ?thesis
    by (auto simp: extract_keywords_def first_occ_def)
next
  case False
  then show ?thesis
    by (simp add: extract_keywords_def Let_def keywords_ranked)
qed

lemma sorted_wrt_take_drop:
  "sorted_wrt R xs \<Longrightarrow> v \<in> set (take k xs) \<Longrightarrow> u \<in> set (drop k xs) \<Longrightarrow> R v u"
  using sorted_wrt_append [of R "take k xs" "drop k xs"] by simp

text \<open>
  Claim C2. For every abstract and every maximum count \<open>n\<close>, the keywords are tokens
  of the lowercased text that are no stop words (\<open>keyword_tokens\<close>; the lemmas
  \<open>findall_alpha_run\<close> and \<open>findall_alpha_separator\<close> say that the tokens are the maximal
  runs of letters), there are at most \<open>n\<close> of them, no token is returned twice, they
  stand in the order "more frequent first, on equal frequency the earlier first
  occurrence first", every token left out ranks after every keyword returned (and then
  exactly \<open>n\<close> are returned), and an empty abstract or one with stop words only gives
  the empty list. The function is total, so it raises nothing. A count \<open>n \<le> 0\<close>
  gives the empty list.
\<close>

theorem extract_keywords_ranking:
  "length (extract_keywords a n) \<le> nat n
   \<and> distinct (extract_keywords a n)
   \<and> set (extract_keywords a n) \<subseteq> set (keyword_tokens a)
   \<and> sorted_wrt (ranks_before (keyword_tokens a)) (extract_keywords a n)
   \<and> (\<forall>u\<in>set (keyword_tokens a) - set (extract_keywords a n).
         length (extract_keywords a n) = nat n
         \<and> (\<forall>v\<in>set (extract_keywords a n). ranks_before (keyword_tokens a) v u))
   \<and> extract_keywords [] n = []
   \<and> (keyword_tokens a = [] \<longrightarrow> extract_keywords a n = [])"
proof -
  define toks where "toks = keyword_tokens a"
  define full where "full = sort_key (\<lambda>w. - int (count_list toks w)) (first_occ toks)"
  have ks: "extract_keywords a n = take (nat n) full"
    by (simp add: extract_keywords_eq toks_def full_def)
  have set_full: "set full = set toks"
    by (simp add: full_def set_first_occ)
  have dist_full: "distinct full"
    by (simp add: full_def distinct_first_occ)
  have sorted_full: "sorted_wrt (ranks_before toks) full"
    unfolding full_def by (rule ranking_sorted)
  have c1: "length (take (nat n) full) \<le> nat n" by simp
  have c2: "distinct (take (nat n) full)" using dist_full by simp
  have c3: "set (take (nat n) full) \<subseteq> set toks"
    using set_take_subset [of "nat n" full] set_full by simp
  have c4: "sorted_wrt (ranks_before toks) (take (nat n) full)"
    using sorted_full by (rule sorted_wrt_take)
  have c5: "length (take (nat n) full) = nat n
            \<and> (\<forall>v\<in>set (take (nat n) full). ranks_before toks v u)"
    if "u \<in> set toks - set (take (nat n) full)" for u
  proof -
    have "set full = set (take (nat n) full) \<union> set (drop (nat n) full)"
      by (metis append_take_drop_id set_append)
    with that set_full have u: "u \<in> set (drop (nat n) full)" by blast
    then have "drop (nat n) full \<noteq> []" by auto
    then have "length (take (nat n) full) = nat n" by simp
    moreover have "\<forall>v\<in>set (take (nat n) full). ranks_before toks v u"
      using sorted_wrt_take_drop [OF sorted_full _ u] by blast
    ultimately show ?thesis by blast
  qed
  have c6: "extract_keywords [] n = []" by (simp add: extract_keywords_def)
  have c7: "keyword_tokens a = [] \<longrightarrow> extract_keywords a n = []"
    by (simp add: extract_keywords_def)
  from c1 c2 c3 c4 c5 c6 c7 show ?thesis
    unfolding ks toks_def [symmetric] by blast
qed

text \<open>
  The ranking at work: two keywords out of three candidate tokens, and an abstract of
  stop words only.
\<close>

theorem extract_keywords_ranking_witness:
  "extract_keywords ''Deep learning: deep LEARNING networks, the method of networks we show'' 2
     = [''deep'', ''learning'']
   \<and> ''networks'' \<in> set (keyword_tokens ''Deep learning: deep LEARNING networks, the method of networks we show'')
        - set (extract_keywords ''Deep learning: deep LEARNING networks, the method of networks we show'' 2)
   \<and> ranks_before (keyword_tokens ''Deep learning: deep LEARNING networks, the method of networks we show'')
        ''learning'' ''networks''
   \<and> keyword_tokens ''The method, of: THE paper!'' = []
   \<and> extract_keywords ''The method, of: THE paper!'' 2 = []"
proof -
  have k: "keyword_tokens ''Deep learning: deep LEARNING networks, the method of networks we show''
           = [''deep'', ''learning'', ''deep'', ''learning'', ''networks'', ''networks'']"
    by code_simp
  have e: "extract_keywords ''Deep learning: deep LEARNING networks, the method of networks we show'' 2
     = [''deep'', ''learning'']"
    by code_simp
  have s: "keyword_tokens ''The method, of: THE paper!'' = []"
    by code_simp
  show ?thesis
    using extract_keywords_ranking
            [of "''Deep learning: deep LEARNING networks, the method of networks we show''" 2]
          extract_keywords_ranking [of "''The method, of: THE paper!''" 2]
    unfolding k e s by simp
qed

text \<open>
  Claim C10. For every abstract and every maximum count the extracted keywords are
  pairwise distinct, and each is a non-empty string of the lowercase letters \<open>a\<close> to
  \<open>z\<close> that is not a stop word.
\<close>

theorem extract_keywords_clean:
  "distinct (extract_keywords a n)
   \<and> (\<forall>k\<in>set (extract_keywords a n).
        k \<noteq> [] \<and> (\<forall>c\<in>set k. is_lower_alpha c) \<and> k \<notin> set STOPWORDS)"
proof -
  have "distinct (extract_keywords a n)"
    by (simp add: extract_keywords_eq distinct_first_occ)
  moreover have "set (extract_keywords a n) \<subseteq> set (keyword_tokens a)"
    using set_take_subset [of "nat n" "sort_key (\<lambda>w. - int (count_list (keyword_tokens a) w))
                            (first_occ (keyword_tokens a))"]
    by (simp add: extract_keywords_eq set_first_occ)
  ultimately show ?thesis using keyword_tokens_lower by blast
qed

text \<open>An abstract with capitals, punctuation and stop words.\<close>

theorem extract_keywords_clean_witness:
  "extract_keywords ''We propose the Graph method; graph-based LEARNING.'' 10
     = [''graph'', ''learning'']
   \<and> distinct (extract_keywords ''We propose the Graph method; graph-based LEARNING.'' 10)
   \<and> list_all is_lower_alpha ''graph'' \<and> ''graph'' \<notin> set STOPWORDS
   \<and> list_all is_lower_alpha ''learning'' \<and> ''learning'' \<notin> set STOPWORDS"
proof -
  have e: "extract_keywords ''We propose the Graph method; graph-based LEARNING.'' 10
             = [''graph'', ''learning'']"
    by code_simp
  show ?thesis
    using extract_keywords_clean [of "''We propose the Graph method; graph-based LEARNING.''" 10]
    unfolding e by (simp add: list_all_iff)
qed

section \<open>Properties of the loader\<close>

lemma strip_no_space: "\<forall>c\<in>set s. \<not> is_space c \<Longrightarrow> strip s = s"
proof (cases s rule: rev_cases)
  case Nil
  then show ?thesis by (simp add: strip_def)
next
  case (snoc ys y)
  assume a: "\<forall>c\<in>set s. \<not> is_space c"
  have 1: "dropWhile is_space s = s" using a by (cases s) auto
  have 2: "dropWhile is_space (rev s) = rev s" using a snoc by simp
  show ?thesis by (simp add: strip_def 1 2)
qed

lemma lower_alpha_not_space: "is_lower_alpha c \<Longrightarrow> \<not> is_space c"
  by (auto simp: is_lower_alpha_def is_space_def)

lemma lower_char_lower_alpha: "is_lower_alpha c \<Longrightarrow> lower_char c = c"
  by (auto simp: is_lower_alpha_def lower_char_def)

lemma lower_lower_alpha: "\<forall>c\<in>set s. is_lower_alpha c \<Longrightarrow> lower s = s"
  by (induction s) (auto simp: lower_def lower_char_lower_alpha)

lemma keyword_unchanged:
  "\<forall>c\<in>set k. is_lower_alpha c \<Longrightarrow> strip (lower k) = k"
  by (simp add: lower_lower_alpha strip_no_space lower_alpha_not_space)

lemma extract_keywords_tokens:
  "k \<in> set (extract_keywords a n) \<Longrightarrow>
   k \<noteq> [] \<and> (\<forall>c\<in>set k. is_lower_alpha c) \<and> k \<notin> set STOPWORDS"
proof -
  assume k: "k \<in> set (extract_keywords a n)"
  have "set (extract_keywords a n) \<subseteq> set (keyword_tokens a)"
    using set_take_subset [of "nat n" "sort_key (\<lambda>w. - int (count_list (keyword_tokens a) w))
                            (first_occ (keyword_tokens a))"]
    by (simp add: extract_keywords_eq set_first_occ)
  with k show ?thesis using keyword_tokens_lower by blast
qed

lemma category_loop_map: "category_loop pa cats = map (category_item pa) cats"
  by (induction cats) auto

lemma author_loop_map:
  "author_loop pa as = map (\<lambda>a. author_item pa (strip (py_str a))) (filter nonblank_author as)"
  by (induction as) (auto simp: nonblank_author_def Let_def)

lemma keyword_loop_map:
  "\<forall>k\<in>set kws. k \<noteq> [] \<and> (\<forall>c\<in>set k. is_lower_alpha c) \<Longrightarrow>
   keyword_loop pa kws = map (keyword_item pa) kws"
  by (induction kws) (auto simp: keyword_unchanged Let_def)

lemma normalize_Some:
  assumes "normalize fromiso p = Inr (Some pa)"
  shows "p_arxiv_id pa = resolve_id p" and "resolve_id p \<noteq> []"
    and "p_keywords pa = extract_keywords (p_abstract pa) 10"
    and "p_categories pa = get_list p ''categories''"
    and "p_authors pa = get_list p ''authors''"
  using assms
  by (auto simp: normalize_def Let_def split: if_splits sum.splits)

lemma paper_keywords_clean:
  assumes "normalize fromiso p = Inr (Some pa)"
  shows "\<forall>k\<in>set (p_keywords pa). k \<noteq> [] \<and> (\<forall>c\<in>set k. is_lower_alpha c)"
  using normalize_Some(3) [OF assms] extract_keywords_tokens by metis

lemma item_type_category [simp]: "item_type (category_item pa c) = ''CATEGORY''"
  by (simp add: category_item_def)
lemma item_type_author [simp]: "item_type (author_item pa c) = ''AUTHOR''"
  by (simp add: author_item_def)
lemma item_type_keyword [simp]: "item_type (keyword_item pa c) = ''KEYWORD''"
  by (simp add: keyword_item_def)
lemma item_type_id [simp]: "item_type (id_item pa) = ''PAPER''"
  by (simp add: id_item_def)

lemma filter_map_const_type:
  "\<forall>x\<in>set xs. item_type (f x) = ty \<Longrightarrow>
   filter (\<lambda>it. item_type it = ty') (map f xs) = (if ty = ty' then map f xs else [])"
  by (induction xs) auto

text \<open>
  Claim C1. A raw record that the loop accepts (it has a non-blank identifier and is
  normalised to the Paper \<open>pa\<close>) gives exactly \<open>c + a + k + 1\<close> items, where \<open>c\<close> is
  the number of category entries, \<open>a\<close> the number of author entries that are not blank
  after trimming and \<open>k\<close> the number of keywords: \<open>c\<close> items of type CATEGORY, \<open>a\<close> of
  type AUTHOR, \<open>k\<close> of type KEYWORD and one identifier item (type PAPER); the loop's
  counter \<open>total_items\<close> grows by that number. The count is of the items handed to
  \<open>put_item\<close>.
\<close>

theorem denormalize_count:
  assumes "normalize fromiso p = Inr (Some pa)"
  shows "resolve_id p \<noteq> []
    \<and> length (denormalize pa)
        = length (p_categories pa) + length (filter nonblank_author (p_authors pa))
          + length (p_keywords pa) + 1
    \<and> length (filter (\<lambda>it. item_type it = ''CATEGORY'') (denormalize pa))
        = length (p_categories pa)
    \<and> length (filter (\<lambda>it. item_type it = ''AUTHOR'') (denormalize pa))
        = length (filter nonblank_author (p_authors pa))
    \<and> length (filter (\<lambda>it. item_type it = ''KEYWORD'') (denormalize pa))
        = length (p_keywords pa)
    \<and> length (filter (\<lambda>it. item_type it = ''PAPER'') (denormalize pa)) = 1
    \<and> total_items (write_paper pa st)
        = total_items st + (length (p_categories pa)
            + length (filter nonblank_author (p_authors pa)) + length (p_keywords pa) + 1)"
proof -
  have kw: "keyword_loop pa (p_keywords pa) = map (keyword_item pa) (p_keywords pa)"
    using paper_keywords_clean [OF assms] by (rule keyword_loop_map)
  have d: "denormalize pa =
      map (category_item pa) (p_categories pa)
      @ map (\<lambda>a. author_item pa (strip (py_str a))) (filter nonblank_author (p_authors pa))
      @ map (keyword_item pa) (p_keywords pa) @ [id_item pa]"
    by (simp add: denormalize_def category_loop_map author_loop_map kw)
  have id: "resolve_id p \<noteq> []" using assms by (rule normalize_Some(2))
  have total: "length (denormalize pa)
        = length (p_categories pa) + length (filter nonblank_author (p_authors pa))
          + length (p_keywords pa) + 1"
    by (simp add: d)
  have c: "length (filter (\<lambda>it. item_type it = ''CATEGORY'') (denormalize pa))
        = length (p_categories pa)"
    by (simp add: d filter_map_const_type [where ty = "''CATEGORY''"]
        filter_map_const_type [where ty = "''AUTHOR''"]
        filter_map_const_type [where ty = "''KEYWORD''"])
  have a: "length (filter (\<lambda>it. item_type it = ''AUTHOR'') (denormalize pa))
        = length (filter nonblank_author (p_authors pa))"
    by (simp add: d filter_map_const_type [where ty = "''CATEGORY''"]
        filter_map_const_type [where ty = "''AUTHOR''"]
        filter_map_const_type [where ty = "''KEYWORD''"])
  have k: "length (filter (\<lambda>it. item_type it = ''KEYWORD'') (denormalize pa))
        = length (p_keywords pa)"
    by (simp add: d filter_map_const_type [where ty = "''CATEGORY''"]
        filter_map_const_type [where ty = "''AUTHOR''"]
        filter_map_const_type [where ty = "''KEYWORD''"])
  have i: "length (filter (\<lambda>it. item_type it = ''PAPER'') (denormalize pa)) = 1"
    by (simp add: d filter_map_const_type [where ty = "''CATEGORY''"]
        filter_map_const_type [where ty = "''AUTHOR''"]
        filter_map_const_type [where ty = "''KEYWORD''"])
  have w: "total_items (write_paper pa st)
        = total_items st + (length (p_categories pa)
            + length (filter nonblank_author (p_authors pa)) + length (p_keywords pa) + 1)"
    by (simp add: write_paper_def total)
  from id total c a k i w show ?thesis by blast
qed

lemma category_loop_attrs:
  "it \<in> set (category_loop pa cats) \<Longrightarrow> shared_attrs it = paper_attrs pa"
  by (induction cats) (auto simp: shared_attrs_def paper_attrs_def category_item_def)

lemma author_loop_attrs:
  "it \<in> set (author_loop pa as) \<Longrightarrow> shared_attrs it = paper_attrs pa"
  by (induction as) (auto simp: shared_attrs_def paper_attrs_def author_item_def Let_def split: if_splits)

lemma keyword_loop_attrs:
  "it \<in> set (keyword_loop pa kws) \<Longrightarrow> shared_attrs it = paper_attrs pa"
  by (induction kws) (auto simp: shared_attrs_def paper_attrs_def keyword_item_def Let_def split: if_splits)

lemma denormalize_attrs:
  "it \<in> set (denormalize pa) \<Longrightarrow> shared_attrs it = paper_attrs pa"
  by (auto simp: denormalize_def category_loop_attrs author_loop_attrs keyword_loop_attrs)
     (simp add: shared_attrs_def paper_attrs_def id_item_def)

text \<open>
  Claim C7. Any two items made from the same Paper, of whatever type, have the same
  title, abstract, authors, categories, keywords and published timestamp, which are
  those of the Paper.
\<close>

theorem items_share_attributes:
  assumes "it1 \<in> set (denormalize pa)" and "it2 \<in> set (denormalize pa)"
  shows "title it1 = title it2 \<and> abstract it1 = abstract it2 \<and> authors it1 = authors it2
       \<and> categories it1 = categories it2 \<and> keywords' it1 = keywords' it2
       \<and> published it1 = published it2
       \<and> title it1 = p_title pa \<and> abstract it1 = p_abstract pa \<and> authors it1 = p_authors pa
       \<and> categories it1 = p_categories pa \<and> keywords' it1 = p_keywords pa
       \<and> published it1 = p_published pa"
  using denormalize_attrs [OF assms(1)] denormalize_attrs [OF assms(2)]
  by (simp add: shared_attrs_def paper_attrs_def)

lemma alist_eqI:
  "distinct (map fst xs) \<Longrightarrow> map fst xs = map fst ys \<Longrightarrow> map_of xs = map_of ys \<Longrightarrow> xs = ys"
proof (induction xs arbitrary: ys)
  case Nil
  then show ?case by simp
next
  case (Cons x xs)
  from Cons.prems(2) obtain y ys' where ys: "ys = y # ys'" and k: "fst x = fst y"
    and ks: "map fst xs = map fst ys'" by (cases ys) auto
  have eq: "map_of (x # xs) k' = map_of (y # ys') k'" for k'
    using Cons.prems(3) unfolding ys by (rule fun_cong)
  from eq [of "fst x"] k have v: "snd x = snd y" by simp
  have "map_of xs k' = map_of ys' k'" for k'
  proof (cases "k' = fst x")
    case True
    with Cons.prems(1) have "k' \<notin> set (map fst xs)" by simp
    then have "map_of xs k' = None" by (simp add: map_of_eq_None_iff)
    moreover from \<open>k' \<notin> set (map fst xs)\<close> ks have "map_of ys' k' = None"
      by (simp add: map_of_eq_None_iff)
    ultimately show ?thesis by simp
  next
    case False
    with eq [of k'] k show ?thesis by simp
  qed
  then have "map_of xs = map_of ys'" by (rule ext)
  with Cons.IH [of ys'] Cons.prems(1) ks have "xs = ys'" by simp
  with k v ys show ?case by (simp add: prod_eq_iff)
qed

lemma map_of_put_item: "map_of (put_item x al) = (map_of al)(item_key x \<mapsto> x)"
  by (simp add: put_item_def item_key_def update_conv')

lemma keys_put_item: "fst ` set (put_item x al) = insert (item_key x) (fst ` set al)"
  by (simp add: put_item_def item_key_def dom_update)

lemma map_of_fold_put:
  "map_of (fold put_item xs t) = map_of t ++ map_of (fold put_item xs [])"
proof (induction xs arbitrary: t rule: rev_induct)
  case Nil
  show ?case by simp
next
  case (snoc x xs)
  have "map_of (fold put_item (xs @ [x]) t) = (map_of (fold put_item xs t))(item_key x \<mapsto> x)"
    by (simp add: map_of_put_item)
  also have "\<dots> = (map_of t ++ map_of (fold put_item xs []))(item_key x \<mapsto> x)"
    by (simp only: snoc.IH [of t])
  also have "\<dots> = map_of t ++ (map_of (fold put_item xs []))(item_key x \<mapsto> x)"
    by (rule map_add_upd [symmetric])
  also have "\<dots> = map_of t ++ map_of (fold put_item (xs @ [x]) [])"
    by (simp add: map_of_put_item)
  finally show ?case .
qed

lemma map_add_twice: "(m ++ g) ++ g = m ++ g"
  by (rule ext) (simp add: map_add_def split: option.split)

lemma keys_fold_put:
  "fst ` set (fold put_item xs t) = fst ` set t \<union> item_key ` set xs"
  by (induction xs arbitrary: t rule: rev_induct) (auto simp: keys_put_item)

lemma distinct_fold_put:
  "distinct (map fst t) \<Longrightarrow> distinct (map fst (fold put_item xs t))"
  by (induction xs arbitrary: t rule: rev_induct)
     (auto simp: put_item_def distinct_update)

lemma keys_fold_put_present:
  "item_key ` set xs \<subseteq> fst ` set t \<Longrightarrow> map fst (fold put_item xs t) = map fst t"
proof (induction xs rule: rev_induct)
  case Nil
  show ?case by simp
next
  case (snoc x xs)
  then have "item_key x \<in> fst ` set (fold put_item xs t)"
    by (auto simp: keys_fold_put)
  with snoc show ?case
    by (auto simp: put_item_def update_keys item_key_def)
qed

lemma fold_put_idem:
  assumes "distinct (map fst t)"
  shows "fold put_item xs (fold put_item xs t) = fold put_item xs t"
proof (rule alist_eqI)
  show "distinct (map fst (fold put_item xs (fold put_item xs t)))"
    using assms by (simp add: distinct_fold_put)
  show "map fst (fold put_item xs (fold put_item xs t)) = map fst (fold put_item xs t)"
    by (rule keys_fold_put_present) (simp add: keys_fold_put)
  have "map_of (fold put_item xs (fold put_item xs t))
        = (map_of t ++ map_of (fold put_item xs [])) ++ map_of (fold put_item xs [])"
    using map_of_fold_put [of xs "fold put_item xs t"] map_of_fold_put [of xs t] by simp
  also have "\<dots> = map_of t ++ map_of (fold put_item xs [])"
    by (rule map_add_twice)
  finally show "map_of (fold put_item xs (fold put_item xs t)) = map_of (fold put_item xs t)"
    using map_of_fold_put [of xs t] by simp
qed

lemma main_loop_tbl:
  "tbl (fst (main_loop fromiso ps st)) = fold put_item (emitted fromiso ps) (tbl st)"
  by (induction ps arbitrary: st)
     (auto simp: write_paper_def split: sum.splits option.splits)

text \<open>
  Claim C6. The key of an item is \<open>(PK, SK)\<close>, computed from the record alone. On a
  table with one item for each key, running the loop a second time over the same records
  leaves the table as the first run left it, no key occurs twice, and the same holds for
  writing the items of one Paper twice.
\<close>

theorem reingest_idempotent:
  assumes "distinct (map fst (tbl st))"
  shows "tbl (fst (main_loop fromiso ps (fst (main_loop fromiso ps st))))
           = tbl (fst (main_loop fromiso ps st))
       \<and> distinct (map fst (tbl (fst (main_loop fromiso ps st))))
       \<and> fold put_item (denormalize pa) (fold put_item (denormalize pa) (tbl st))
           = fold put_item (denormalize pa) (tbl st)"
  using assms by (simp add: main_loop_tbl fold_put_idem distinct_fold_put)

lemma example_normalize:
  "normalize fromisoformat_canonical example_raw = Inr (Some example_paper)"
  by code_simp

lemma example_items:
  "map (\<lambda>it. (PK it, SK it)) (denormalize example_paper) =
     [(''CATEGORY#cs.AI'', ''2024-01-15#A1''), (''CATEGORY#cs.LG'', ''2024-01-15#A1''),
      (''AUTHOR#X Y'', ''2024-01-15#A1''), (''KEYWORD#deep'', ''2024-01-15#A1''),
      (''KEYWORD#learning'', ''2024-01-15#A1''), (''KEYWORD#networks'', ''2024-01-15#A1''),
      (''PAPER#A1'', ''PAPER'')]"
  by code_simp

text \<open>The example record: two categories, one author that counts, three keywords.\<close>

theorem denormalize_count_witness:
  "normalize fromisoformat_canonical example_raw = Inr (Some example_paper)
   \<and> length (p_categories example_paper) = 2
   \<and> length (filter nonblank_author (p_authors example_paper)) = 1
   \<and> length (p_keywords example_paper) = 3
   \<and> length (denormalize example_paper) = 7
   \<and> length (filter (\<lambda>it. item_type it = ''PAPER'') (denormalize example_paper)) = 1"
proof -
  have c: "length (p_categories example_paper) = 2" by (simp add: example_paper_def)
  have a: "length (filter nonblank_author (p_authors example_paper)) = 1" by code_simp
  have k: "length (p_keywords example_paper) = 3" by (simp add: example_paper_def)
  show ?thesis
    using denormalize_count [OF example_normalize] example_normalize
    unfolding c a k by simp
qed

text \<open>A category item and the identifier item of the example Paper.\<close>

theorem items_share_attributes_witness:
  "category_item example_paper (JStr ''cs.AI'') \<in> set (denormalize example_paper)
   \<and> id_item example_paper \<in> set (denormalize example_paper)
   \<and> title (category_item example_paper (JStr ''cs.AI'')) = title (id_item example_paper)
   \<and> keywords' (category_item example_paper (JStr ''cs.AI'')) = [''deep'', ''learning'', ''networks'']"
proof -
  have 1: "category_item example_paper (JStr ''cs.AI'') \<in> set (denormalize example_paper)"
    by (simp add: denormalize_def example_paper_def)
  have 2: "id_item example_paper \<in> set (denormalize example_paper)"
    by (simp add: denormalize_def)
  have 3: "p_keywords example_paper = [''deep'', ''learning'', ''networks'']"
    by (simp add: example_paper_def)
  from items_share_attributes [OF 1 2]
  have t: "title (category_item example_paper (JStr ''cs.AI'')) = title (id_item example_paper)"
    and k: "keywords' (category_item example_paper (JStr ''cs.AI'')) = p_keywords example_paper"
    by blast+
  from 1 2 t k [unfolded 3] show ?thesis by blast
qed

text \<open>Loading the example record twice into the empty table.\<close>

theorem reingest_idempotent_witness:
  "distinct (map fst (tbl (initial_state [])))
   \<and> tbl (fst (main_loop fromisoformat_canonical [example_raw]
            (fst (main_loop fromisoformat_canonical [example_raw] (initial_state [])))))
     = tbl (fst (main_loop fromisoformat_canonical [example_raw] (initial_state [])))
   \<and> length (tbl (fst (main_loop fromisoformat_canonical [example_raw] (initial_state [])))) = 7"
proof -
  have d: "distinct (map fst (tbl (initial_state [])))" by (simp add: initial_state_def)
  have l: "length (tbl (fst (main_loop fromisoformat_canonical [example_raw] (initial_state [])))) = 7"
    by code_simp
  show ?thesis
    using reingest_idempotent [OF d, of fromisoformat_canonical "[example_raw]"] d l by simp
qed

lemma id_item_in_denormalize: "id_item pa \<in> set (denormalize pa)"
  by (simp add: denormalize_def)

text \<open>
  Claim C4 says that a record whose \<open>arxiv_id\<close> is blank after trimming and whose
  \<open>id\<close> is not blank is ingested under that \<open>id\<close>. The record \<open>blank_arxiv_id_raw\<close> is
  such a record, and the loop passes over it: nothing is written.
\<close>

theorem blank_arxiv_id_counterexample:
  "strip (py_str (dict_get blank_arxiv_id_raw ''arxiv_id'')) = []
   \<and> strip (py_str (dict_get blank_arxiv_id_raw ''id'')) = ''2301.00001''
   \<and> normalize fromisoformat_canonical blank_arxiv_id_raw = Inr None
   \<and> main_loop fromisoformat_canonical [blank_arxiv_id_raw] (initial_state [])
       = (initial_state [], None)"
  by code_simp

section \<open>Properties of date normalisation\<close>

lemma replace_from_absent:
  "old \<noteq> [] \<Longrightarrow> hd old \<notin> set s \<Longrightarrow> replace_from old new 0 s = s"
proof (induction s)
  case Nil
  show ?case by simp
next
  case (Cons c cs)
  then have "take (length old) (c # cs) \<noteq> old"
    by (cases old) auto
  with Cons show ?case by simp
qed

lemma replace_from_append:
  "old \<noteq> [] \<Longrightarrow> hd old \<notin> set pre \<Longrightarrow>
   replace_from old new 0 (pre @ rest) = pre @ replace_from old new 0 rest"
proof (induction pre)
  case Nil
  show ?case by simp
next
  case (Cons c cs)
  then have "take (length old) (c # cs @ rest) \<noteq> old"
    by (cases old) auto
  with Cons show ?case by simp
qed

lemma replace_absent: "old \<noteq> [] \<Longrightarrow> hd old \<notin> set s \<Longrightarrow> replace old new s = s"
  by (simp add: replace_def replace_from_absent)

lemma replace_from_skip: "replace_from old new (length cs) cs = []"
  by (induction cs) auto

lemma replace_utc_suffix:
  "CHR ''+'' \<notin> set pre \<Longrightarrow> replace ''+00:00'' ''Z'' (pre @ ''+00:00'') = pre @ ''Z''"
  by (simp add: replace_def replace_from_append)

lemma replace_other_offset:
  assumes "CHR ''+'' \<notin> set pre" and "CHR ''+'' \<notin> set rest"
    and "take (length ''00:00'') rest \<noteq> ''00:00''"
  shows "replace ''+00:00'' ''Z'' (pre @ CHR ''+'' # rest) = pre @ CHR ''+'' # rest"
proof -
  have "take (length ''+00:00'') (CHR ''+'' # rest) \<noteq> ''+00:00''"
    using assms(3) by simp
  then show ?thesis
    using assms(1,2) by (simp add: replace_def replace_from_append replace_from_absent)
qed

lemma digit_char_code: "d < 10 \<Longrightarrow> code (digit_char d) = 48 + d"
  by (simp add: digit_char_def code_def)

lemma show_nat_digits: "c \<in> set (show_nat n) \<Longrightarrow> is_digit c"
proof (induction n rule: show_nat.induct)
  case (1 n)
  show ?case
  proof (cases "n < 10")
    case True
    with 1(2) show ?thesis
      by (subst (asm) show_nat.simps) (simp add: is_digit_def digit_char_code)
  next
    case False
    with 1(2) have "c \<in> set (show_nat (n div 10)) \<or> c = digit_char (n mod 10)"
      by (subst (asm) show_nat.simps) auto
    with 1(1) False show ?thesis
      by (auto simp: is_digit_def digit_char_code)
  qed
qed

lemma zpad_digits: "c \<in> set (zpad k n) \<Longrightarrow> is_digit c"
  by (auto simp: zpad_def is_digit_def code_def dest: show_nat_digits)

lemma plus_not_digit: "\<not> is_digit (CHR ''+'')"
  by (simp add: is_digit_def code_def)

lemma plus_notin_zpad: "CHR ''+'' \<notin> set (zpad k n)"
  using zpad_digits plus_not_digit by blast

lemma plus_notin_date: "CHR ''+'' \<notin> set (date_isoformat dt)"
  by (simp add: date_isoformat_def plus_notin_zpad)

lemma plus_notin_time: "CHR ''+'' \<notin> set (time_isoformat dt)"
  by (simp add: time_isoformat_def plus_notin_zpad)

lemma digit_char_0: "digit_char 0 = CHR ''0''"
  by code_simp

lemma zpad2: "n < 100 \<Longrightarrow> zpad 2 n = [digit_char (n div 10), digit_char (n mod 10)]"
proof (cases "n < 10")
  case True
  then have "show_nat n = [digit_char n]" by (subst show_nat.simps) simp
  with True show ?thesis by (simp add: zpad_def digit_char_0)
next
  case False
  assume "n < 100"
  then have "n div 10 < 10" by (simp add: less_mult_imp_div_less)
  then have "show_nat (n div 10) = [digit_char (n div 10)]"
    by (subst show_nat.simps) simp
  with False have "show_nat n = [digit_char (n div 10), digit_char (n mod 10)]"
    by (subst show_nat.simps) simp
  then show ?thesis by (simp add: zpad_def)
qed

lemma digit_char_zero: "d < 10 \<Longrightarrow> (digit_char d = CHR ''0'') = (d = 0)"
proof
  assume "d < 10" and "digit_char d = CHR ''0''"
  then have "code (digit_char d) = 48" by (simp add: code_def)
  with \<open>d < 10\<close> show "d = 0" by (simp add: digit_char_code)
next
  assume "d = 0"
  then show "digit_char d = CHR ''0''" by (simp add: digit_char_0)
qed

lemma zpad2_zero: "n < 100 \<Longrightarrow> (zpad 2 n = ''00'') = (n = 0)"
  by (auto simp: zpad2 digit_char_zero)

lemma offset_zero: "offset_isoformat 0 = ''+00:00''"
  by (simp add: offset_isoformat_def zpad2 digit_char_0)

lemma offset_negative: "off < 0 \<Longrightarrow> CHR ''+'' \<notin> set (offset_isoformat off)"
  by (simp add: offset_isoformat_def Let_def plus_notin_zpad)

lemma offset_positive:
  assumes "60 \<le> off" and "off < 86400"
  shows "\<exists>rest. offset_isoformat off = CHR ''+'' # rest \<and> CHR ''+'' \<notin> set rest
           \<and> take (length ''00:00'') rest \<noteq> ''00:00''"
proof -
  define a where "a = \<bar>off\<bar>"
  have a: "60 \<le> a" "a < 86400" using assms by (simp_all add: a_def)
  define hh where "hh = nat (a div 3600)"
  define mm where "mm = nat (a mod 3600 div 60)"
  define rest where "rest = zpad 2 hh @ '':'' @ zpad 2 mm
         @ (if a mod 60 \<noteq> 0 then '':'' @ zpad 2 (nat (a mod 60)) else [])"
  have eq: "offset_isoformat off = CHR ''+'' # rest"
    using assms by (simp add: offset_isoformat_def Let_def a_def rest_def hh_def mm_def)
  have np: "CHR ''+'' \<notin> set rest" by (simp add: rest_def plus_notin_zpad)
  have h: "hh < 100" and m: "mm < 100" using a by (auto simp: hh_def mm_def)
  have "hh \<noteq> 0 \<or> mm \<noteq> 0" using a by (cases "a < 3600") (auto simp: hh_def mm_def)
  then have "zpad 2 hh \<noteq> ''00'' \<or> zpad 2 mm \<noteq> ''00''"
    using zpad2_zero [OF h] zpad2_zero [OF m] by simp
  then have "take (length ''00:00'') rest \<noteq> ''00:00''"
    by (auto simp: rest_def zpad2 [OF h] zpad2 [OF m])
  with eq np show ?thesis by blast
qed

lemma isoformat_naive:
  "utcoffset dt = None \<Longrightarrow>
   replace ''+00:00'' ''Z'' (isoformat dt) = date_isoformat dt @ ''T'' @ time_isoformat dt"
  by (simp add: isoformat_def replace_absent plus_notin_date plus_notin_time)

lemma isoformat_utc:
  assumes "utcoffset dt = Some 0"
  shows "replace ''+00:00'' ''Z'' (isoformat dt) = date_isoformat dt @ ''T'' @ time_isoformat dt @ ''Z''"
proof -
  have "CHR ''+'' \<notin> set (date_isoformat dt @ ''T'' @ time_isoformat dt)"
    by (simp add: plus_notin_date plus_notin_time)
  from replace_utc_suffix [OF this] assms show ?thesis
    by (simp add: isoformat_def offset_zero)
qed

lemma isoformat_offset_kept:
  assumes "utcoffset dt = Some off" and "off < 0 \<or> 60 \<le> off" and "\<bar>off\<bar> < 86400"
  shows "replace ''+00:00'' ''Z'' (isoformat dt)
         = date_isoformat dt @ ''T'' @ time_isoformat dt @ offset_isoformat off"
proof (cases "off < 0")
  case True
  then have "CHR ''+'' \<notin> set (isoformat dt)"
    using assms(1) by (simp add: isoformat_def plus_notin_date plus_notin_time offset_negative)
  then show ?thesis using assms(1) by (simp add: replace_absent isoformat_def)
next
  case False
  with assms have "60 \<le> off" "off < 86400" by auto
  from offset_positive [OF this] obtain rest where
    r: "offset_isoformat off = CHR ''+'' # rest" "CHR ''+'' \<notin> set rest"
       "take (length ''00:00'') rest \<noteq> ''00:00''" by blast
  have p: "CHR ''+'' \<notin> set (date_isoformat dt @ ''T'' @ time_isoformat dt)"
    by (simp add: plus_notin_date plus_notin_time)
  from replace_other_offset [OF p r(2,3)] assms(1) r(1) show ?thesis
    by (simp add: isoformat_def)
qed

text \<open>
  Claim C5 says that a full timestamp is re-emitted as a normalised UTC instant and that a
  date-only string is treated as midnight UTC. A timestamp with the offset \<open>+05:30\<close>
  comes back with that offset (the UTC instant would be \<open>2024-01-15T05:00:00Z\<close>), and
  a date-only string gives a timestamp without any zone designator.
\<close>

theorem published_not_utc_counterexample:
  "normalize_published fromisoformat_canonical (JStr ''2024-01-15T10:30:00+05:30'')
     = (''2024-01-15'', ''2024-01-15T10:30:00+05:30'')
   \<and> normalize_published fromisoformat_canonical (JStr ''2024-01-15'')
     = (''2024-01-15'', ''2024-01-15T00:00:00'')"
  by code_simp

section \<open>Identifier resolution and ingestion\<close>

lemma normalize_accepts:
  assumes "resolve_id p \<noteq> []"
    and "get_stripped p ''title'' = Inr ti" and "get_stripped p ''abstract'' = Inr ab"
  shows "normalize fromiso p = Inr (Some (mk_paper fromiso p ti ab))"
  using assms by (simp add: normalize_def mk_paper_def Let_def)

lemma normalize_raises:
  assumes "resolve_id p \<noteq> []"
    and "get_stripped p ''title'' = Inl e
         \<or> (get_stripped p ''title'' = Inr ti \<and> get_stripped p ''abstract'' = Inl e)"
  shows "normalize fromiso p = Inl e"
  using assms by (auto simp: normalize_def Let_def)

lemma id_item_stored:
  "map_of (fold put_item (denormalize pa) t) (''PAPER#'' @ p_arxiv_id pa, ''PAPER'')
     = Some (id_item pa)"
proof -
  have k: "item_key (id_item pa) = (''PAPER#'' @ p_arxiv_id pa, ''PAPER'')"
    by (simp add: item_key_def id_item_def)
  have "fold put_item (denormalize pa) t
        = put_item (id_item pa)
            (fold put_item (category_loop pa (p_categories pa) @ author_loop pa (p_authors pa)
                            @ keyword_loop pa (p_keywords pa)) t)"
    by (simp add: denormalize_def)
  then show ?thesis
    by (simp only: map_of_put_item k) simp
qed

text \<open>
  Claim C4, amended. The identifier is the trimmed string form of the first value among
  \<open>arxiv_id\<close> and \<open>id\<close> that is present and non-empty (true in Python's sense), and
  it is blank when there is none. A record whose identifier comes out blank is passed
  over and the loop goes on with the records that follow. A record whose identifier is
  not blank and whose title and abstract are absent or strings is ingested under that
  identifier: it is normalised to a Paper with that identifier, its items are written,
  and the table then holds its identifier item under the key
  \<open>("PAPER#" + identifier, "PAPER")\<close>. If the title or the abstract is present and no string,
  reading it raises and the loop is left with that exception.
\<close>

theorem resolve_id_first_truthy:
  "(truthy (dict_get p ''arxiv_id'') \<longrightarrow>
      resolve_id p = strip (py_str (dict_get p ''arxiv_id'')))
   \<and> (\<not> truthy (dict_get p ''arxiv_id'') \<and> truthy (dict_get p ''id'') \<longrightarrow>
      resolve_id p = strip (py_str (dict_get p ''id'')))
   \<and> (\<not> truthy (dict_get p ''arxiv_id'') \<and> \<not> truthy (dict_get p ''id'') \<longrightarrow>
      resolve_id p = [])
   \<and> (resolve_id p = [] \<longrightarrow>
      normalize fromiso p = Inr None
      \<and> main_loop fromiso (p # ps) st = main_loop fromiso ps st)
   \<and> (resolve_id p \<noteq> [] \<and> get_stripped p ''title'' = Inr ti
       \<and> get_stripped p ''abstract'' = Inr ab \<longrightarrow>
      normalize fromiso p = Inr (Some (mk_paper fromiso p ti ab))
      \<and> p_arxiv_id (mk_paper fromiso p ti ab) = resolve_id p
      \<and> main_loop fromiso (p # ps) st
          = main_loop fromiso ps (write_paper (mk_paper fromiso p ti ab) st)
      \<and> map_of (tbl (write_paper (mk_paper fromiso p ti ab) st))
           (''PAPER#'' @ resolve_id p, ''PAPER'')
          = Some (id_item (mk_paper fromiso p ti ab)))
   \<and> (resolve_id p \<noteq> []
       \<and> (get_stripped p ''title'' = Inl e
           \<or> (get_stripped p ''title'' = Inr ti \<and> get_stripped p ''abstract'' = Inl e)) \<longrightarrow>
      main_loop fromiso (p # ps) st = (st, Some e))"
proof -
  have 1: "truthy (dict_get p ''arxiv_id'') \<longrightarrow>
      resolve_id p = strip (py_str (dict_get p ''arxiv_id''))"
    by (simp add: resolve_id_def py_or_def)
  have 2: "\<not> truthy (dict_get p ''arxiv_id'') \<and> truthy (dict_get p ''id'') \<longrightarrow>
      resolve_id p = strip (py_str (dict_get p ''id''))"
    by (simp add: resolve_id_def py_or_def)
  have 3: "\<not> truthy (dict_get p ''arxiv_id'') \<and> \<not> truthy (dict_get p ''id'') \<longrightarrow>
      resolve_id p = []"
    by (simp add: resolve_id_def py_or_def py_str_def strip_def)
  have 4: "resolve_id p = [] \<longrightarrow>
      normalize fromiso p = Inr None
      \<and> main_loop fromiso (p # ps) st = main_loop fromiso ps st"
    by (simp add: normalize_def)
  have 5: "resolve_id p \<noteq> [] \<and> get_stripped p ''title'' = Inr ti
       \<and> get_stripped p ''abstract'' = Inr ab \<longrightarrow>
      normalize fromiso p = Inr (Some (mk_paper fromiso p ti ab))
      \<and> p_arxiv_id (mk_paper fromiso p ti ab) = resolve_id p
      \<and> main_loop fromiso (p # ps) st
          = main_loop fromiso ps (write_paper (mk_paper fromiso p ti ab) st)
      \<and> map_of (tbl (write_paper (mk_paper fromiso p ti ab) st))
           (''PAPER#'' @ resolve_id p, ''PAPER'')
          = Some (id_item (mk_paper fromiso p ti ab))"
  proof
    assume a: "resolve_id p \<noteq> [] \<and> get_stripped p ''title'' = Inr ti
       \<and> get_stripped p ''abstract'' = Inr ab"
    then have n: "normalize fromiso p = Inr (Some (mk_paper fromiso p ti ab))"
      by (simp add: normalize_accepts)
    have i: "p_arxiv_id (mk_paper fromiso p ti ab) = resolve_id p"
      by (simp add: mk_paper_def)
    have m: "main_loop fromiso (p # ps) st
          = main_loop fromiso ps (write_paper (mk_paper fromiso p ti ab) st)"
      by (simp add: n)
    have s: "map_of (tbl (write_paper (mk_paper fromiso p ti ab) st))
           (''PAPER#'' @ resolve_id p, ''PAPER'')
          = Some (id_item (mk_paper fromiso p ti ab))"
      using id_item_stored [of "mk_paper fromiso p ti ab" "tbl st"]
      by (simp add: write_paper_def i)
    from n i m s
    show "normalize fromiso p = Inr (Some (mk_paper fromiso p ti ab))
      \<and> p_arxiv_id (mk_paper fromiso p ti ab) = resolve_id p
      \<and> main_loop fromiso (p # ps) st
          = main_loop fromiso ps (write_paper (mk_paper fromiso p ti ab) st)
      \<and> map_of (tbl (write_paper (mk_paper fromiso p ti ab) st))
           (''PAPER#'' @ resolve_id p, ''PAPER'')
          = Some (id_item (mk_paper fromiso p ti ab))"
      by blast
  qed
  have 6: "resolve_id p \<noteq> []
       \<and> (get_stripped p ''title'' = Inl e
           \<or> (get_stripped p ''title'' = Inr ti \<and> get_stripped p ''abstract'' = Inl e)) \<longrightarrow>
      main_loop fromiso (p # ps) st = (st, Some e)"
    using normalize_raises [of p e ti fromiso] by auto
  from 1 2 3 4 5 6 show ?thesis by blast
qed


text \<open>
  An empty \<open>arxiv_id\<close> falls back to the \<open>id\<close> and the record is stored under it, a
  record without either is passed over, and a record with an \<open>id\<close> and a \<open>null\<close> title
  stops the load.
\<close>

theorem resolve_id_first_truthy_witness:
  "resolve_id empty_arxiv_id_raw = ''2301.00001''
   \<and> map_of (tbl (fst (main_loop fromisoformat_canonical [empty_arxiv_id_raw] (initial_state []))))
        (''PAPER#2301.00001'', ''PAPER'')
       = Some (id_item (mk_paper fromisoformat_canonical empty_arxiv_id_raw [] []))
   \<and> arxiv_id (id_item (mk_paper fromisoformat_canonical empty_arxiv_id_raw [] [])) = ''2301.00001''
   \<and> resolve_id [] = []
   \<and> main_loop fromisoformat_canonical ([] # [example_raw]) (initial_state [])
       = main_loop fromisoformat_canonical [example_raw] (initial_state [])
   \<and> resolve_id null_title_raw = ''X1''
   \<and> main_loop fromisoformat_canonical (null_title_raw # [example_raw]) (initial_state [])
       = (initial_state [],
          Some (AttributeError (CHR 0x27 # ''NoneType'' @ CHR 0x27 # '' object has no attribute ''
                                @ CHR 0x27 # ''strip'' @ [CHR 0x27])))"
proof -
  let ?f = fromisoformat_canonical
  let ?e = "AttributeError (CHR 0x27 # ''NoneType'' @ CHR 0x27 # '' object has no attribute ''
                                @ CHR 0x27 # ''strip'' @ [CHR 0x27])"
  have a: "\<not> truthy (dict_get empty_arxiv_id_raw ''arxiv_id'') \<and> truthy (dict_get empty_arxiv_id_raw ''id'')"
    by code_simp
  have b: "strip (py_str (dict_get empty_arxiv_id_raw ''id'')) = ''2301.00001''"
    by code_simp
  have t: "get_stripped empty_arxiv_id_raw ''title'' = Inr []"
    "get_stripped empty_arxiv_id_raw ''abstract'' = Inr []"
    by code_simp+
  have c: "\<not> truthy (dict_get [] ''arxiv_id'') \<and> \<not> truthy (dict_get [] ''id'')"
    by code_simp
  have d: "\<not> truthy (dict_get null_title_raw ''arxiv_id'') \<and> truthy (dict_get null_title_raw ''id'')"
    by code_simp
  have e: "strip (py_str (dict_get null_title_raw ''id'')) = ''X1''"
    by code_simp
  have g: "get_stripped null_title_raw ''title'' = Inl ?e"
    by code_simp
  note T1 = resolve_id_first_truthy [of empty_arxiv_id_raw ?f "[]" "initial_state []" "[]" "[]" ?e]
  from T1 a have 1: "resolve_id empty_arxiv_id_raw = strip (py_str (dict_get empty_arxiv_id_raw ''id''))"
    by blast
  then have i1: "resolve_id empty_arxiv_id_raw = ''2301.00001''" by (simp only: b)
  then have ne: "resolve_id empty_arxiv_id_raw \<noteq> []" by simp
  from T1 ne t
  have m: "main_loop ?f (empty_arxiv_id_raw # []) (initial_state [])
          = main_loop ?f [] (write_paper (mk_paper ?f empty_arxiv_id_raw [] []) (initial_state []))"
    and s: "map_of (tbl (write_paper (mk_paper ?f empty_arxiv_id_raw [] []) (initial_state [])))
           (''PAPER#'' @ resolve_id empty_arxiv_id_raw, ''PAPER'')
          = Some (id_item (mk_paper ?f empty_arxiv_id_raw [] []))"
    by blast+
  have 2: "map_of (tbl (fst (main_loop ?f [empty_arxiv_id_raw] (initial_state []))))
        (''PAPER#2301.00001'', ''PAPER'')
       = Some (id_item (mk_paper ?f empty_arxiv_id_raw [] []))"
  proof -
    have ml: "main_loop ?f [empty_arxiv_id_raw] (initial_state [])
          = (write_paper (mk_paper ?f empty_arxiv_id_raw [] []) (initial_state []), None)"
      by (simp only: m main_loop.simps(1))
    from s have "map_of (tbl (write_paper (mk_paper ?f empty_arxiv_id_raw [] []) (initial_state [])))
           (''PAPER#2301.00001'', ''PAPER'')
          = Some (id_item (mk_paper ?f empty_arxiv_id_raw [] []))"
      by (simp add: i1)
    then show ?thesis by (simp only: ml fst_conv)
  qed
  have 3: "arxiv_id (id_item (mk_paper ?f empty_arxiv_id_raw [] [])) = ''2301.00001''"
    by (simp add: id_item_def mk_paper_def i1)
  note T2 = resolve_id_first_truthy [of "[]" ?f "[example_raw]" "initial_state []" "[]" "[]" ?e]
  from T2 c have 4: "resolve_id [] = []"
    and 5: "main_loop ?f ([] # [example_raw]) (initial_state [])
       = main_loop ?f [example_raw] (initial_state [])"
    by blast+
  note T3 = resolve_id_first_truthy [of null_title_raw ?f "[example_raw]" "initial_state []" "[]" "[]" ?e]
  from T3 d have "resolve_id null_title_raw = strip (py_str (dict_get null_title_raw ''id''))"
    by blast
  then have 6: "resolve_id null_title_raw = ''X1''" by (simp only: e)
  then have ne': "resolve_id null_title_raw \<noteq> []" by simp
  from T3 ne' g have 7: "main_loop ?f (null_title_raw # [example_raw]) (initial_state [])
       = (initial_state [], Some ?e)"
    by blast
  from i1 2 3 4 5 6 7 show ?thesis by (simp only: simp_thms)
qed

section \<open>The cases of date normalisation\<close>

lemma replace_utc_infix:
  assumes "CHR ''+'' \<notin> set pre" and "CHR ''+'' \<notin> set rest"
  shows "replace ''+00:00'' ''Z'' (pre @ ''+00:00'' @ rest) = pre @ ''Z'' @ rest"
  using assms by (simp add: replace_def replace_from_append replace_from_absent)

lemma offset_small:
  assumes "0 < off" and "off < 60"
  shows "offset_isoformat off = ''+00:00'' @ '':'' @ zpad 2 (nat off)"
  using assms by (simp add: offset_isoformat_def Let_def zpad2 digit_char_0)

lemma isoformat_small_offset:
  assumes "utcoffset dt = Some off" and "0 < off" and "off < 60"
  shows "replace ''+00:00'' ''Z'' (isoformat dt)
         = date_isoformat dt @ ''T'' @ time_isoformat dt @ ''Z:'' @ zpad 2 (nat off)"
proof -
  have p: "CHR ''+'' \<notin> set (date_isoformat dt @ ''T'' @ time_isoformat dt)"
    by (simp add: plus_notin_date plus_notin_time)
  have r: "CHR ''+'' \<notin> set ('':'' @ zpad 2 (nat off))"
    by (simp add: plus_notin_zpad)
  have "isoformat dt
        = (date_isoformat dt @ ''T'' @ time_isoformat dt) @ ''+00:00'' @ ('':'' @ zpad 2 (nat off))"
    using assms by (simp add: isoformat_def offset_small)
  then have "replace ''+00:00'' ''Z'' (isoformat dt)
        = (date_isoformat dt @ ''T'' @ time_isoformat dt) @ ''Z'' @ ('':'' @ zpad 2 (nat off))"
    using replace_utc_infix [OF p r] by (simp only:)
  then show ?thesis by simp
qed

text \<open>
  Claim C5, amended. An absent or empty (false) input gives the epoch date with the
  timestamp \<open>1970-01-01T00:00:00Z\<close>. Otherwise the string form of the input is parsed: a
  string without \<open>T\<close> is trimmed and parsed with \<open>T00:00:00\<close> appended (midnight of that
  date), a string with \<open>T\<close> is parsed with every \<open>Z\<close> written \<open>+00:00\<close>. If the parser
  rejects it, the result is the first ten characters as date and the string itself as
  timestamp; nothing is raised. If it is parsed, the date is the parsed date, and the
  timestamp is the parsed value in ISO form with its own offset and no conversion to UTC:
  no zone designator for a value without zone (so for a date-only string), \<open>Z\<close> for
  the offset zero, the offset itself for a negative offset and for one of at least a
  minute, and \<open>Z:SS\<close> for a positive offset of \<open>SS\<close> seconds below a minute, since the
  text \<open>+00:00\<close> is replaced wherever it stands. Offsets are whole seconds and less than a
  day in size, as the library's are.
\<close>

theorem normalize_published_cases:
  "(\<not> truthy raw \<longrightarrow>
      normalize_published fromiso raw = (''1970-01-01'', ''1970-01-01T00:00:00Z''))
   \<and> (CHR ''T'' \<notin> set (py_str raw) \<longrightarrow>
      parse_published fromiso (py_str raw) = fromiso (strip (py_str raw) @ ''T00:00:00''))
   \<and> (CHR ''T'' \<in> set (py_str raw) \<longrightarrow>
      parse_published fromiso (py_str raw) = fromiso (replace ''Z'' ''+00:00'' (py_str raw)))
   \<and> (truthy raw \<and> parse_published fromiso (py_str raw) = None \<longrightarrow>
      normalize_published fromiso raw = (take 10 (py_str raw), py_str raw))
   \<and> (truthy raw \<and> parse_published fromiso (py_str raw) = Some dt \<longrightarrow>
      fst (normalize_published fromiso raw) = date_isoformat dt
      \<and> (utcoffset dt = None \<longrightarrow>
           snd (normalize_published fromiso raw)
             = date_isoformat dt @ ''T'' @ time_isoformat dt)
      \<and> (utcoffset dt = Some 0 \<longrightarrow>
           snd (normalize_published fromiso raw)
             = date_isoformat dt @ ''T'' @ time_isoformat dt @ ''Z'')
      \<and> (utcoffset dt = Some off \<and> 0 < off \<and> off < 60 \<longrightarrow>
           snd (normalize_published fromiso raw)
             = date_isoformat dt @ ''T'' @ time_isoformat dt @ ''Z:'' @ zpad 2 (nat off))
      \<and> (utcoffset dt = Some off \<and> (off < 0 \<or> 60 \<le> off) \<and> \<bar>off\<bar> < 86400 \<longrightarrow>
           snd (normalize_published fromiso raw)
             = date_isoformat dt @ ''T'' @ time_isoformat dt @ offset_isoformat off))"
proof -
  have 1: "\<not> truthy raw \<longrightarrow>
      normalize_published fromiso raw = (''1970-01-01'', ''1970-01-01T00:00:00Z'')"
    by (simp add: normalize_published_def)
  have 2: "CHR ''T'' \<notin> set (py_str raw) \<longrightarrow>
      parse_published fromiso (py_str raw) = fromiso (strip (py_str raw) @ ''T00:00:00'')"
    by (simp add: parse_published_def)
  have 3: "CHR ''T'' \<in> set (py_str raw) \<longrightarrow>
      parse_published fromiso (py_str raw) = fromiso (replace ''Z'' ''+00:00'' (py_str raw))"
    by (simp add: parse_published_def)
  have 4: "truthy raw \<and> parse_published fromiso (py_str raw) = None \<longrightarrow>
      normalize_published fromiso raw = (take 10 (py_str raw), py_str raw)"
    by (simp add: normalize_published_def Let_def)
  have 5: "truthy raw \<and> parse_published fromiso (py_str raw) = Some dt \<longrightarrow>
      normalize_published fromiso raw
        = (date_isoformat dt, replace ''+00:00'' ''Z'' (isoformat dt))"
    by (simp add: normalize_published_def Let_def)
  from 1 2 3 4 5 isoformat_naive [of dt] isoformat_utc [of dt] isoformat_offset_kept [of dt off]
    isoformat_small_offset [of dt off]
  show ?thesis by simp
qed

text \<open>
  Absent and empty input, a string that is no date, a date-only string, a UTC
  timestamp, a timestamp thirty seconds ahead of UTC and one eight hours behind, with
  the canonical parser.
\<close>

theorem normalize_published_cases_witness:
  "normalize_published fromisoformat_canonical JNull = (''1970-01-01'', ''1970-01-01T00:00:00Z'')
   \<and> normalize_published fromisoformat_canonical (JStr []) = (''1970-01-01'', ''1970-01-01T00:00:00Z'')
   \<and> normalize_published fromisoformat_canonical (JStr ''Tuesday, 3 May 2022'')
       = (''Tuesday, 3'', ''Tuesday, 3 May 2022'')
   \<and> snd (normalize_published fromisoformat_canonical (JStr ''2024-01-15'')) = ''2024-01-15T00:00:00''
   \<and> snd (normalize_published fromisoformat_canonical (JStr ''2024-01-15T10:30:00Z''))
       = ''2024-01-15T10:30:00Z''
   \<and> snd (normalize_published fromisoformat_canonical (JStr ''2024-01-15T10:30:00+00:00:30''))
       = ''2024-01-15T10:30:00Z:30''
   \<and> snd (normalize_published fromisoformat_canonical (JStr ''2024-01-15T10:30:00-08:00''))
       = ''2024-01-15T10:30:00-08:00''"
proof -
  define d0 where "d0 = \<lparr>year = 2024, month = 1, day = 15, hour = 0, minute = 0, second = 0,
                          microsecond = 0, utcoffset = None\<rparr>"
  define d1 where "d1 = \<lparr>year = 2024, month = 1, day = 15, hour = 10, minute = 30, second = 0,
                          microsecond = 0, utcoffset = Some 0\<rparr>"
  define d2 where "d2 = \<lparr>year = 2024, month = 1, day = 15, hour = 10, minute = 30, second = 0,
                          microsecond = 0, utcoffset = Some (- 28800)\<rparr>"
  define d3 where "d3 = \<lparr>year = 2024, month = 1, day = 15, hour = 10, minute = 30, second = 0,
                          microsecond = 0, utcoffset = Some 30\<rparr>"
  have s: "py_str (JStr x) = x" for x by (simp add: py_str_def)
  have p0: "parse_published fromisoformat_canonical ''Tuesday, 3 May 2022'' = None"
    by code_simp
  have p1: "parse_published fromisoformat_canonical ''2024-01-15'' = Some d0"
    unfolding d0_def by code_simp
  have p2: "parse_published fromisoformat_canonical ''2024-01-15T10:30:00Z'' = Some d1"
    unfolding d1_def by code_simp
  have p3: "parse_published fromisoformat_canonical ''2024-01-15T10:30:00-08:00'' = Some d2"
    unfolding d2_def by code_simp
  have p4: "parse_published fromisoformat_canonical ''2024-01-15T10:30:00+00:00:30'' = Some d3"
    unfolding d3_def by code_simp
  have f1: "date_isoformat d0 @ ''T'' @ time_isoformat d0 = ''2024-01-15T00:00:00''"
    unfolding d0_def by code_simp
  have f2: "date_isoformat d1 @ ''T'' @ time_isoformat d1 @ ''Z'' = ''2024-01-15T10:30:00Z''"
    unfolding d1_def by code_simp
  have f3: "date_isoformat d2 @ ''T'' @ time_isoformat d2 @ offset_isoformat (- 28800)
            = ''2024-01-15T10:30:00-08:00''"
    unfolding d2_def by code_simp
  have f4: "date_isoformat d3 @ ''T'' @ time_isoformat d3 @ ''Z:'' @ zpad 2 (nat 30)
            = ''2024-01-15T10:30:00Z:30''"
    unfolding d3_def by code_simp
  have u: "utcoffset d0 = None" "utcoffset d1 = Some 0" "utcoffset d2 = Some (- 28800)"
    "utcoffset d3 = Some 30"
    by (simp_all add: d0_def d1_def d2_def d3_def)
  have a: "normalize_published fromisoformat_canonical JNull = (''1970-01-01'', ''1970-01-01T00:00:00Z'')"
    using normalize_published_cases [of JNull fromisoformat_canonical d0 0] by simp
  have b: "normalize_published fromisoformat_canonical (JStr []) = (''1970-01-01'', ''1970-01-01T00:00:00Z'')"
    using normalize_published_cases [of "JStr []" fromisoformat_canonical d0 0] by simp
  have c: "normalize_published fromisoformat_canonical (JStr ''Tuesday, 3 May 2022'')
       = (''Tuesday, 3'', ''Tuesday, 3 May 2022'')"
    using normalize_published_cases [of "JStr ''Tuesday, 3 May 2022''" fromisoformat_canonical d0 0]
    by (simp add: s p0)
  have d': "snd (normalize_published fromisoformat_canonical (JStr ''2024-01-15''))
       = date_isoformat d0 @ ''T'' @ time_isoformat d0"
    using normalize_published_cases [of "JStr ''2024-01-15''" fromisoformat_canonical d0 0]
    by (simp add: s p1 u)
  have d: "snd (normalize_published fromisoformat_canonical (JStr ''2024-01-15''))
       = ''2024-01-15T00:00:00''"
    by (simp only: d' f1)
  have e': "snd (normalize_published fromisoformat_canonical (JStr ''2024-01-15T10:30:00Z''))
       = date_isoformat d1 @ ''T'' @ time_isoformat d1 @ ''Z''"
    using normalize_published_cases [of "JStr ''2024-01-15T10:30:00Z''" fromisoformat_canonical d1 0]
    by (simp add: s p2 u)
  have e: "snd (normalize_published fromisoformat_canonical (JStr ''2024-01-15T10:30:00Z''))
       = ''2024-01-15T10:30:00Z''"
    by (simp only: e' f2)
  have g': "snd (normalize_published fromisoformat_canonical (JStr ''2024-01-15T10:30:00+00:00:30''))
       = date_isoformat d3 @ ''T'' @ time_isoformat d3 @ ''Z:'' @ zpad 2 (nat 30)"
    using normalize_published_cases [of "JStr ''2024-01-15T10:30:00+00:00:30''" fromisoformat_canonical d3 30]
    by (simp add: s p4 u)
  have g: "snd (normalize_published fromisoformat_canonical (JStr ''2024-01-15T10:30:00+00:00:30''))
       = ''2024-01-15T10:30:00Z:30''"
    by (simp only: g' f4)
  have f': "snd (normalize_published fromisoformat_canonical (JStr ''2024-01-15T10:30:00-08:00''))
       = date_isoformat d2 @ ''T'' @ time_isoformat d2 @ offset_isoformat (- 28800)"
    using normalize_published_cases [of "JStr ''2024-01-15T10:30:00-08:00''" fromisoformat_canonical d2 "- 28800"]
    by (simp add: s p3 u)
  have f: "snd (normalize_published fromisoformat_canonical (JStr ''2024-01-15T10:30:00-08:00''))
       = ''2024-01-15T10:30:00-08:00''"
    by (simp only: f' f3)
  from a b c d e g f show ?thesis by (simp only: simp_thms)
qed

section \<open>Properties of the date-range query\<close>












section \<open>Properties of the by-identifier query and of the request handler\<close>














end
